theory Spec2Isabelle
  imports Complex_Main "HOL-Library.Sublist"
begin

section \<open>JavaScript strings\<close>

text \<open>
  The module under verification is \<^verbatim>\<open>src/build/transform.ts\<close>: the on-demand
  TypeScript/JSX loader of Float-V.  A JavaScript string is modelled as a \<^typ>\<open>string\<close>
  whose characters are its code units; the model therefore covers the strings whose code
  units are all below 256.  Indices and lengths count code units, as in JavaScript.
\<close>

type_synonym path = string

definition sq :: char where
  "sq = CHR 0x27"

definition dq :: char where
  "dq = CHR 0x22"

text \<open>\<^verbatim>\<open>s.startsWith(p)\<close> and \<^verbatim>\<open>s.includes(p)\<close>.\<close>

fun js_startsWith :: "string \<Rightarrow> string \<Rightarrow> bool" where
  "js_startsWith s [] = True"
| "js_startsWith [] (p # ps) = False"
| "js_startsWith (c # cs) (p # ps) = (c = p \<and> js_startsWith cs ps)"

fun js_includes :: "string \<Rightarrow> string \<Rightarrow> bool" where
  "js_includes [] p = (p = [])"
| "js_includes (c # cs) p = (js_startsWith (c # cs) p \<or> js_includes cs p)"

text \<open>
  \<^verbatim>\<open>s.slice(a, b)\<close> and \<^verbatim>\<open>s.slice(a)\<close>: a negative index counts from the end, and both
  indices are clamped to the string.
\<close>

definition js_slice :: "string \<Rightarrow> int \<Rightarrow> int \<Rightarrow> string" where
  "js_slice s a b =
     (let n = int (length s);
          lo = (if a < 0 then max (n + a) 0 else min a n);
          hi = (if b < 0 then max (n + b) 0 else min b n)
      in take (nat (hi - lo)) (drop (nat lo) s))"

definition js_slice_from :: "string \<Rightarrow> int \<Rightarrow> string" where
  "js_slice_from s a = js_slice s a (int (length s))"

text \<open>The class \<^verbatim>\<open>\s\<close> of a regular expression, on code units below 256.\<close>

definition is_space :: "char \<Rightarrow> bool" where
  "is_space c = (c \<in> set [CHR 0x09, CHR 0x0A, CHR 0x0B, CHR 0x0C, CHR 0x0D, CHR 0x20, CHR 0xA0])"

text \<open>The class \<^verbatim>\<open>['"]\<close>.\<close>

definition is_quote :: "char \<Rightarrow> bool" where
  "is_quote c = (c = sq \<or> c = dq)"

subsection \<open>Facts about the string primitives\<close>

lemma js_startsWith_iff: "js_startsWith s p \<longleftrightarrow> (\<exists>r. s = p @ r)"
  by (induction s p rule: js_startsWith.induct) auto

lemma js_includes_iff: "js_includes s p \<longleftrightarrow> (\<exists>a b. s = a @ p @ b)"
proof (induction s)
  case Nil
  then show ?case by auto
next
  case (Cons c cs)
  show ?case
  proof
    assume "js_includes (c # cs) p"
    then consider "js_startsWith (c # cs) p" | "js_includes cs p" by auto
    then show "\<exists>a b. c # cs = a @ p @ b"
    proof cases
      case 1
      then obtain r where "c # cs = p @ r" by (auto simp: js_startsWith_iff)
      then have "c # cs = [] @ p @ r" by simp
      then show ?thesis by blast
    next
      case 2
      then obtain a b where "cs = a @ p @ b" using Cons.IH by auto
      then have "c # cs = (c # a) @ p @ b" by simp
      then show ?thesis by blast
    qed
  next
    assume "\<exists>a b. c # cs = a @ p @ b"
    then obtain a b where ab: "c # cs = a @ p @ b" by auto
    show "js_includes (c # cs) p"
    proof (cases a)
      case Nil
      with ab have "js_startsWith (c # cs) p" by (auto simp: js_startsWith_iff)
      then show ?thesis by simp
    next
      case (Cons x xs)
      with ab have "cs = xs @ p @ b" by simp
      then have "js_includes cs p" using Cons.IH by auto
      then show ?thesis by simp
    qed
  qed
qed


section \<open>The import scanner\<close>

text \<open>
  The pieces of a regular expression, each read at the front of the text that is left:
  a literal, a greedy run of a character class (one or more, zero or more) and a single
  character of a class.  A piece gives what it read and the text behind it, or fails.
\<close>

definition eat_lit :: "string \<Rightarrow> string \<Rightarrow> string option" where
  "eat_lit lit s = (if js_startsWith s lit then Some (drop (length lit) s) else None)"

definition eat_star :: "(char \<Rightarrow> bool) \<Rightarrow> string \<Rightarrow> (string \<times> string) option" where
  "eat_star P s = Some (takeWhile P s, dropWhile P s)"

definition eat_plus :: "(char \<Rightarrow> bool) \<Rightarrow> string \<Rightarrow> (string \<times> string) option" where
  "eat_plus P s = (if takeWhile P s = [] then None else Some (takeWhile P s, dropWhile P s))"

definition eat_class :: "(char \<Rightarrow> bool) \<Rightarrow> string \<Rightarrow> (char \<times> string) option" where
  "eat_class P s = (case s of [] \<Rightarrow> None | c # cs \<Rightarrow> if P c then Some (c, cs) else None)"

text \<open>
  \<^verbatim>\<open>const importRegex = /from\s+['"]([^'"]+)['"]/g;\<close>

  An attempt at one position reads the literal \<^verbatim>\<open>from\<close>, the longest run of white space (at
  least one), a quote, the longest run of characters that are not quotes (at least one)
  and a closing quote.  Neither run can give a character back: the character behind a run
  is not in the run's class, and it is the one the expression needs next.  A match gives
  \<^verbatim>\<open>match[0]\<close>, \<^verbatim>\<open>match[1]\<close> and the text behind the match.
\<close>

definition matchImportAt :: "string \<Rightarrow> (string \<times> string \<times> string) option" where
  "matchImportAt s =
     Option.bind (eat_lit ''from'' s) (\<lambda>s1.
     Option.bind (eat_plus is_space s1) (\<lambda>(ws, s2).
     Option.bind (eat_class is_quote s2) (\<lambda>(q, s3).
     Option.bind (eat_plus (\<lambda>c. \<not> is_quote c) s3) (\<lambda>(g, s4).
     Option.bind (eat_class is_quote s4) (\<lambda>(q2, rest).
     Some (''from'' @ ws @ [q] @ g @ [q2], g, rest))))))"

lemma eat_lit_Some: "eat_lit lit s = Some t \<longleftrightarrow> s = lit @ t"
  by (auto simp: eat_lit_def js_startsWith_iff)

lemma takeWhile_run:
  "(\<forall>c\<in>set a. P c) \<Longrightarrow> \<not> P y \<Longrightarrow>
   takeWhile P (a @ y # ys) = a \<and> dropWhile P (a @ y # ys) = y # ys"
  by (induction a) auto

lemma eat_plus_Some:
  "eat_plus P s = Some (r, t) \<longleftrightarrow>
     r \<noteq> [] \<and> s = r @ t \<and> (\<forall>c\<in>set r. P c) \<and> (case t of [] \<Rightarrow> True | c # _ \<Rightarrow> \<not> P c)"
proof
  assume "eat_plus P s = Some (r, t)"
  then have r: "r = takeWhile P s" "t = dropWhile P s" "r \<noteq> []"
    by (auto simp: eat_plus_def split: if_splits)
  have "case dropWhile P s of [] \<Rightarrow> True | c # _ \<Rightarrow> \<not> P c"
    by (metis hd_dropWhile list.case_eq_if)
  with r show "r \<noteq> [] \<and> s = r @ t \<and> (\<forall>c\<in>set r. P c) \<and> (case t of [] \<Rightarrow> True | c # _ \<Rightarrow> \<not> P c)"
    by (auto dest: set_takeWhileD)
next
  assume a: "r \<noteq> [] \<and> s = r @ t \<and> (\<forall>c\<in>set r. P c) \<and> (case t of [] \<Rightarrow> True | c # _ \<Rightarrow> \<not> P c)"
  show "eat_plus P s = Some (r, t)"
  proof (cases t)
    case Nil
    with a have "takeWhile P s = r \<and> dropWhile P s = t" by simp
    with a show ?thesis by (simp add: eat_plus_def)
  next
    case (Cons y ys)
    with a have "takeWhile P s = r \<and> dropWhile P s = t"
      using takeWhile_run [of r P y ys] by simp
    with a show ?thesis by (simp add: eat_plus_def)
  qed
qed

lemma eat_star_Some:
  "eat_star P s = Some (r, t) \<longleftrightarrow>
     s = r @ t \<and> (\<forall>c\<in>set r. P c) \<and> (case t of [] \<Rightarrow> True | c # _ \<Rightarrow> \<not> P c)"
proof
  assume "eat_star P s = Some (r, t)"
  then have r: "r = takeWhile P s" "t = dropWhile P s"
    by (auto simp: eat_star_def)
  have "case dropWhile P s of [] \<Rightarrow> True | c # _ \<Rightarrow> \<not> P c"
    by (metis hd_dropWhile list.case_eq_if)
  with r show "s = r @ t \<and> (\<forall>c\<in>set r. P c) \<and> (case t of [] \<Rightarrow> True | c # _ \<Rightarrow> \<not> P c)"
    by (auto dest: set_takeWhileD)
next
  assume a: "s = r @ t \<and> (\<forall>c\<in>set r. P c) \<and> (case t of [] \<Rightarrow> True | c # _ \<Rightarrow> \<not> P c)"
  show "eat_star P s = Some (r, t)"
  proof (cases t)
    case Nil
    with a have "takeWhile P s = r \<and> dropWhile P s = t" by simp
    with a show ?thesis by (simp add: eat_star_def)
  next
    case (Cons y ys)
    with a have "takeWhile P s = r \<and> dropWhile P s = t"
      using takeWhile_run [of r P y ys] by simp
    with a show ?thesis by (simp add: eat_star_def)
  qed
qed

lemma eat_class_Some: "eat_class P s = Some (c, t) \<longleftrightarrow> s = c # t \<and> P c"
  by (auto simp: eat_class_def split: list.splits)

lemma quote_not_space: "is_quote q \<Longrightarrow> \<not> is_space q"
  by (auto simp: is_quote_def is_space_def sq_def dq_def)

lemma matchImportAt_Some_iff:
  "matchImportAt s = Some (w, g, rest) \<longleftrightarrow>
     (\<exists>ws q q2. s = ''from'' @ ws @ [q] @ g @ [q2] @ rest \<and> w = ''from'' @ ws @ [q] @ g @ [q2] \<and>
        ws \<noteq> [] \<and> (\<forall>c\<in>set ws. is_space c) \<and> is_quote q \<and>
        g \<noteq> [] \<and> (\<forall>c\<in>set g. \<not> is_quote c) \<and> is_quote q2)"
  unfolding matchImportAt_def
  by (auto simp: bind_eq_Some_conv eat_lit_Some eat_plus_Some eat_class_Some quote_not_space)

lemma matchImportAt_decompose:
  assumes "matchImportAt s = Some (w, g, rest)"
  shows "s = w @ rest" and "w \<noteq> []"
  using assms unfolding matchImportAt_Some_iff by auto

lemma matchImportAt_shorter:
  "matchImportAt s = Some (w, g, rest) \<Longrightarrow> length rest < length s"
  using matchImportAt_decompose [of s w g rest] by auto

text \<open>
  \<^verbatim>\<open>const matches = [...code.matchAll(importRegex)];\<close>  The scan goes from left to right: a
  match is recorded with the index of its first character and the scan goes on behind it;
  where no match starts the scan moves one character on.
\<close>

record rmatch =
  m_index :: nat
  m_text :: string
  m_spec :: string

function scanImports :: "nat \<Rightarrow> string \<Rightarrow> rmatch list" where
  "scanImports i [] = []"
| "scanImports i (c # cs) =
     (case matchImportAt (c # cs) of
        Some (w, g, rest) \<Rightarrow> \<lparr>m_index = i, m_text = w, m_spec = g\<rparr> # scanImports (i + length w) rest
      | None \<Rightarrow> scanImports (Suc i) cs)"
  by pat_completeness auto
termination
  by (relation "measure (\<lambda>(i, s). length s)") (auto dest: matchImportAt_shorter)

definition matchAll :: "string \<Rightarrow> rmatch list" where
  "matchAll code = scanImports 0 code"

text \<open>
  \<^verbatim>\<open>resolvedPath.replace(/\.(js|mjs)$/, '')\<close>: only a match that ends the string can
  succeed, so a final \<^verbatim>\<open>.js\<close> or \<^verbatim>\<open>.mjs\<close> is cut off and nothing else changes.
\<close>

definition stripJsExt :: "string \<Rightarrow> string" where
  "stripJsExt p =
     (if suffix ''.mjs'' p then take (length p - 4) p
      else if suffix ''.js'' p then take (length p - 3) p
      else p)"

text \<open>
  \<^verbatim>\<open>code.replace(/import\s+['"][^'"]*\.css['"];?/g, '')\<close>: the run between the quotes can
  only be followed by a quote at its end, so the run must end in \<^verbatim>\<open>.css\<close>; a semicolon
  right behind the closing quote goes with the match.  The attempt returns the text behind
  the match.
\<close>

definition eat_opt :: "char \<Rightarrow> string \<Rightarrow> string" where
  "eat_opt c s = (case s of [] \<Rightarrow> [] | c' # cs \<Rightarrow> if c' = c then cs else s)"

definition matchCssAt :: "string \<Rightarrow> string option" where
  "matchCssAt s =
     Option.bind (eat_lit ''import'' s) (\<lambda>s1.
     Option.bind (eat_plus is_space s1) (\<lambda>(ws, s2).
     Option.bind (eat_class is_quote s2) (\<lambda>(q, s3).
     Option.bind (eat_star (\<lambda>c. \<not> is_quote c) s3) (\<lambda>(g, s4).
     if \<not> suffix ''.css'' g then None
     else Option.bind (eat_class is_quote s4) (\<lambda>(q2, rest). Some (eat_opt (CHR '';'') rest))))))"

lemma eat_opt_length: "length (eat_opt c s) \<le> length s"
  by (auto simp: eat_opt_def split: list.splits)

lemma matchCssAt_shorter:
  assumes "matchCssAt s = Some rest"
  shows "length rest < length s"
proof -
  from assms obtain s1 ws s2 q s3 g s4 q2 r where
    "s = ''import'' @ s1" "s1 = ws @ s2" "s2 = q # s3" "s3 = g @ s4" "s4 = q2 # r"
    "rest = eat_opt (CHR '';'') r"
    unfolding matchCssAt_def
    by (auto simp: bind_eq_Some_conv eat_lit_Some eat_plus_Some eat_star_Some eat_class_Some
        split: if_splits)
  then show ?thesis using eat_opt_length [of "CHR '';''" r] by simp
qed

function stripCssImports :: "string \<Rightarrow> string" where
  "stripCssImports [] = []"
| "stripCssImports (c # cs) =
     (case matchCssAt (c # cs) of
        Some rest \<Rightarrow> stripCssImports rest
      | None \<Rightarrow> c # stripCssImports cs)"
  by pat_completeness auto
termination
  by (relation "measure length") (auto dest: matchCssAt_shorter)

text \<open>The decimal digits of \<^verbatim>\<open>Date.now()\<close> inside a template string.\<close>

fun show_nat :: "nat \<Rightarrow> string" where
  "show_nat n =
     (if n < 10 then [char_of (n + 48)]
      else show_nat (n div 10) @ [char_of (n mod 10 + 48)])"

declare show_nat.simps [simp del]

section \<open>The runtime-import convention of transformFile\<close>

text \<open>
  Lines 89 to 92 of \<^verbatim>\<open>transform.ts\<close>:
  \<^verbatim>\<open>if (!code.includes('import React') && !code.includes('import * as React'))
       code = `import React from 'react';\n${code}`;\<close>
\<close>

definition reactImportLine :: string where
  "reactImportLine = ''import React from 'react';'' @ [CHR 0x0A]"

definition prependReact :: "string \<Rightarrow> string" where
  "prependReact code =
     (if \<not> js_includes code ''import React'' \<and> \<not> js_includes code ''import * as React''
      then reactImportLine @ code
      else code)"

section \<open>The host: file system, module resolution, transformer\<close>

text \<open>
  A node of the file system is a file with its text and its \<^verbatim>\<open>mtimeMs\<close>, or a directory
  with its \<^verbatim>\<open>mtimeMs\<close>.  \<^verbatim>\<open>mtimeMs\<close> is a finite double, compared with \<^verbatim>\<open>>\<close> and
  \<^verbatim>\<open>===\<close>; the reals hold every such value and order them the same way.
\<close>

datatype fnode = File string real | Dir real

type_synonym filesystem = "path \<rightharpoonup> fnode"

datatype error =
    FileNotFound path
  | ENOENT path
  | EISDIR path
  | ENOTDIR path
  | EEXIST path
  | HostError string

datatype loader = LoaderTs | LoaderTsx | LoaderJsx | LoaderJs | LoaderJson

datatype module = Module nat

definition existsSync :: "filesystem \<Rightarrow> path \<Rightarrow> bool" where
  "existsSync fsys p = (fsys p \<noteq> None)"

definition statMtimeMs :: "filesystem \<Rightarrow> path \<Rightarrow> error + real" where
  "statMtimeMs fsys p =
     (case fsys p of
        None \<Rightarrow> Inl (ENOENT p)
      | Some (File c t) \<Rightarrow> Inr t
      | Some (Dir t) \<Rightarrow> Inr t)"

definition readFileSync :: "filesystem \<Rightarrow> path \<Rightarrow> error + string" where
  "readFileSync fsys p =
     (case fsys p of
        None \<Rightarrow> Inl (ENOENT p)
      | Some (File c t) \<Rightarrow> Inr c
      | Some (Dir t) \<Rightarrow> Inl (EISDIR p))"

text \<open>
  What the module takes from Node and from esbuild.  The functions of \<^verbatim>\<open>node:path\<close>,
  \<^verbatim>\<open>node:url\<close>, \<^verbatim>\<open>node:crypto\<close> and \<^verbatim>\<open>Buffer\<close> are pure; \<^verbatim>\<open>require_resolve h file spec\<close> is
  \<^verbatim>\<open>createRequire(file).resolve(spec)\<close>, \<^verbatim>\<open>Inl\<close> when it throws; \<^verbatim>\<open>esbuild_transform\<close> takes
  the loader, the \<^verbatim>\<open>sourcefile\<close> and the source text (the other options are constants of
  the module).  \<^verbatim>\<open>module_dir\<close> is the directory of the rewriter's own file,
  \<^verbatim>\<open>path.dirname(fileURLToPath(import.meta.url))\<close>.  \<^verbatim>\<open>dynamic_import\<close> loads a URL from the
  file system as it is at that moment.  \<^verbatim>\<open>dump_evidence\<close> is the debug path of a failed
  dependency transform (the import of the debugger and its \<^verbatim>\<open>dumpEvidence\<close> call): it gives
  the error it throws, if it throws.
  Module resolution and \<^verbatim>\<open>realpathSync\<close> answer from the installed packages, which no
  operation of this module changes: they are functions of the host.
\<close>

record host =
  h_cwd :: path
  path_isAbsolute :: "path \<Rightarrow> bool"
  path_resolve :: "string list \<Rightarrow> path"
  path_join :: "string list \<Rightarrow> path"
  path_dirname :: "path \<Rightarrow> path"
  path_extname :: "path \<Rightarrow> string"
  path_basename :: "path \<Rightarrow> string \<Rightarrow> string"
  pathToFileURL :: "path \<Rightarrow> string"
  require_resolve :: "path \<Rightarrow> string \<Rightarrow> error + path"
  realpathSync :: "path \<Rightarrow> error + path"
  esbuild_transform :: "loader \<Rightarrow> path \<Rightarrow> string \<Rightarrow> error + string"
  sha256_hex :: "string \<Rightarrow> string"
  base64 :: "string \<Rightarrow> string"
  module_dir :: path
  dynamic_import :: "filesystem \<Rightarrow> string \<Rightarrow> error + module"
  dump_evidence :: "path \<Rightarrow> error \<Rightarrow> error option"

text \<open>
  The effects the claims speak of are recorded as events: a call of the transformer (with
  its \<^verbatim>\<open>sourcefile\<close>) and a dynamic import (with its URL).  Console output is not modelled.
\<close>

datatype event = EsbuildTransform path | DynamicImport string

text \<open>
  The state of the process: the file system, the clock \<^verbatim>\<open>Date.now()\<close>, the module-level
  variables \<^verbatim>\<open>moduleCache\<close>, \<^verbatim>\<open>lockedReactPath\<close> and \<^verbatim>\<open>lockedReactDOMPath\<close>, the temporary files
  whose removal \<^verbatim>\<open>setImmediate\<close> has scheduled, and the events so far.  The clock is read,
  never advanced, by the operations: time passes between them.
\<close>

record state =
  fs :: filesystem
  now :: nat
  moduleCache :: "path \<rightharpoonup> (module \<times> real)"
  lockedReactPath :: "path option"
  lockedReactDOMPath :: "path option"
  immediates :: "path list"
  events :: "event list"

text \<open>
  An operation returns the state it leaves and its value or the error it throws;
  \<^const>\<open>None\<close> is a recursion that has not returned within the fuel.
\<close>

type_synonym 'a outcome = "(state \<times> (error + 'a)) option"

text \<open>
  \<^verbatim>\<open>fs.writeFileSync(file, text)\<close>: the directory that is to hold the file must exist and be
  a directory, and the path must not name a directory; the file then holds the text, with
  the time of the write as its \<^verbatim>\<open>mtimeMs\<close>.  (The \<^verbatim>\<open>mtimeMs\<close> of the directory itself is left
  as it is.)
\<close>

definition writeFileSync :: "host \<Rightarrow> state \<Rightarrow> path \<Rightarrow> string \<Rightarrow> state \<times> (error + unit)" where
  "writeFileSync h st p text =
     (case fs st (path_dirname h p) of
        None \<Rightarrow> (st, Inl (ENOENT p))
      | Some (File c t) \<Rightarrow> (st, Inl (ENOTDIR p))
      | Some (Dir t) \<Rightarrow>
          (case fs st p of
             Some (Dir t') \<Rightarrow> (st, Inl (EISDIR p))
           | _ \<Rightarrow> (st\<lparr>fs := (fs st)(p \<mapsto> File text (real (now st)))\<rparr>, Inr ())))"

text \<open>
  The directories above a path, the nearest first: \<^verbatim>\<open>path.dirname\<close> again and again until
  it gives its argument back (each step of the real function drops at least one
  character, so the length of the path bounds the number of steps).
\<close>

fun ancestorsWithin :: "nat \<Rightarrow> host \<Rightarrow> path \<Rightarrow> path list" where
  "ancestorsWithin 0 h p = []"
| "ancestorsWithin (Suc n) h p =
     (if path_dirname h p = p then []
      else path_dirname h p # ancestorsWithin n h (path_dirname h p))"

definition ancestors :: "host \<Rightarrow> path \<Rightarrow> path list" where
  "ancestors h p = ancestorsWithin (length p) h p"

definition isFile :: "filesystem \<Rightarrow> path \<Rightarrow> bool" where
  "isFile fsys p = (case fsys p of Some (File c t) \<Rightarrow> True | _ \<Rightarrow> False)"

text \<open>
  \<^verbatim>\<open>fs.mkdirSync(dir, { recursive: true })\<close>: a regular file above the path or at the path
  is an error and nothing is created; otherwise every directory of the chain that is
  missing is created, and the ones that exist are left alone.
\<close>

definition mkdirSync :: "host \<Rightarrow> state \<Rightarrow> path \<Rightarrow> state \<times> (error + unit)" where
  "mkdirSync h st p =
     (if \<exists>a\<in>set (ancestors h p). isFile (fs st) a then (st, Inl (ENOTDIR p))
      else if isFile (fs st) p then (st, Inl (EEXIST p))
      else (st\<lparr>fs := foldr (\<lambda>dir fsys. if fsys dir = None then fsys(dir \<mapsto> Dir (real (now st))) else fsys)
                          (p # ancestors h p) (fs st)\<rparr>, Inr ()))"

text \<open>\<^verbatim>\<open>try { fs.unlinkSync(tempFile); } catch { }\<close>\<close>

definition unlinkQuiet :: "state \<Rightarrow> path \<Rightarrow> state" where
  "unlinkQuiet st p =
     (case fs st p of
        Some (File c t) \<Rightarrow> st\<lparr>fs := (fs st)(p := None)\<rparr>
      | _ \<Rightarrow> st)"

section \<open>lockFrameworkDependencies\<close>

text \<open>
  The body of the \<^verbatim>\<open>try\<close> block, statement by statement: the first statement that throws
  ends it, and the assignments made before stay.
\<close>

definition lockBody :: "host \<Rightarrow> state \<Rightarrow> path \<Rightarrow> state \<times> (error + unit)" where
  "lockBody h st projectRoot =
     (let noop = path_join h [projectRoot, ''noop.js''] in
      case require_resolve h noop ''react'' of
        Inl e \<Rightarrow> (st, Inl e)
      | Inr p \<Rightarrow>
          (case realpathSync h p of
             Inl e \<Rightarrow> (st, Inl e)
           | Inr rp \<Rightarrow>
               (let st1 = st\<lparr>lockedReactPath := Some rp\<rparr> in
                case require_resolve h noop ''react-dom'' of
                  Inl e \<Rightarrow> (st1, Inl e)
                | Inr q \<Rightarrow>
                    (case realpathSync h q of
                       Inl e \<Rightarrow> (st1, Inl e)
                     | Inr rq \<Rightarrow> (st1\<lparr>lockedReactDOMPath := Some rq\<rparr>, Inr ())))))"

text \<open>\<^verbatim>\<open>try { ... } catch (e) { /* Fallback if not found */ }\<close>: every error ends in \<^verbatim>\<open>Inr ()\<close>.\<close>

definition lockFrameworkDependencies :: "host \<Rightarrow> state \<Rightarrow> path \<Rightarrow> state \<times> (error + unit)" where
  "lockFrameworkDependencies h st projectRoot =
     (case lockBody h st projectRoot of
        (st', Inl e) \<Rightarrow> (st', Inr ())
      | (st', Inr u) \<Rightarrow> (st', Inr ()))"

section \<open>rewriteImports\<close>

definition getLoader :: "string \<Rightarrow> loader" where
  "getLoader ext =
     (if ext = ''.ts'' then LoaderTs
      else if ext = ''.tsx'' then LoaderTsx
      else if ext = ''.jsx'' then LoaderJsx
      else if ext = ''.js'' then LoaderJs
      else if ext = ''.mjs'' then LoaderJs
      else if ext = ''.json'' then LoaderJson
      else LoaderTs)"

text \<open>The two shim modules, character for character (lines 163 to 182 and 186 to 190).\<close>

definition reactGlue :: string where
  "reactGlue =
     [CHR 0x0A] @
     ''      const getReact = () => {'' @ [CHR 0x0A] @
     ''        const r = globalThis.__FLOAT_REACT__;'' @ [CHR 0x0A] @
     ''        if (!r) console.error('[Shim] __FLOAT_REACT__ is missing!');'' @ [CHR 0x0A] @
     ''        return r;'' @ [CHR 0x0A] @
     ''      };'' @ [CHR 0x0A] @
     ''      export default globalThis.__FLOAT_REACT__; '' @ [CHR 0x0A] @
     ''      export const useState = (...args) => getReact()?.useState(...args); '' @ [CHR 0x0A] @
     ''      export const useMemo = (...args) => getReact()?.useMemo(...args); '' @ [CHR 0x0A] @
     ''      export const useCallback = (...args) => getReact()?.useCallback(...args); '' @ [CHR 0x0A] @
     ''      export const useEffect = (...args) => getReact()?.useEffect(...args); '' @ [CHR 0x0A] @
     ''      export const useContext = (...args) => getReact()?.useContext(...args); '' @ [CHR 0x0A] @
     ''      export const useReducer = (...args) => getReact()?.useReducer(...args); '' @ [CHR 0x0A] @
     ''      export const useRef = (...args) => getReact()?.useRef(...args); '' @ [CHR 0x0A] @
     ''      export const useId = (...args) => getReact()?.useId(...args); '' @ [CHR 0x0A] @
     ''      export const useLayoutEffect = (...args) => getReact()?.useLayoutEffect(...args); '' @ [CHR 0x0A] @
     ''      export const createContext = (...args) => getReact()?.createContext(...args); '' @ [CHR 0x0A] @
     ''      export const createElement = (...args) => getReact()?.createElement(...args); '' @ [CHR 0x0A] @
     ''      export const Fragment = globalThis.__FLOAT_REACT__?.Fragment;'' @ [CHR 0x0A] @
     ''      ''"

definition reactDomGlue :: string where
  "reactDomGlue =
     [CHR 0x0A] @
     ''      export default globalThis.__FLOAT_REACT_DOM__ || globalThis.__FLOAT_REACT__; '' @ [CHR 0x0A] @
     ''      export const render = (...args) => globalThis.__FLOAT_REACT_DOM__?.render(...args); '' @ [CHR 0x0A] @
     ''      export const hydrate = (...args) => globalThis.__FLOAT_REACT_DOM__?.hydrate(...args);'' @ [CHR 0x0A] @
     ''      ''"

text \<open>\<^verbatim>\<open>`data:text/javascript;base64,${Buffer.from(glueCode).toString('base64')}`\<close>\<close>

definition dataUrl :: "host \<Rightarrow> string \<Rightarrow> string" where
  "dataUrl h glueCode = ''data:text/javascript;base64,'' @ base64 h glueCode"

definition isReact :: "string \<Rightarrow> bool" where
  "isReact importPath = (importPath = ''react'' \<or> js_startsWith importPath ''react/'')"

definition isReactDOM :: "string \<Rightarrow> bool" where
  "isReactDOM importPath = (importPath = ''react-dom'' \<or> js_startsWith importPath ''react-dom/'')"

definition isFramework :: "string \<Rightarrow> bool" where
  "isFramework importPath = (importPath = ''@float-v/core'' \<or> importPath = ''@float-v/core'')"

definition isReactNative :: "string \<Rightarrow> bool" where
  "isReactNative importPath = (importPath = ''react-native'')"

text \<open>The three variables of one turn of the loop.\<close>

record resolution =
  finalImportPath :: string
  found :: bool
  resolvedPath :: string

text \<open>\<^verbatim>\<open>const localRequire = createRequire(path.join(baseDir, 'noop.js'));\<close>\<close>

definition localRequire :: "host \<Rightarrow> path \<Rightarrow> string \<Rightarrow> error + path" where
  "localRequire h baseDir spec = require_resolve h (path_join h [baseDir, ''noop.js'']) spec"

text \<open>Lines 162 to 210: the shims, the native platform, the framework itself.\<close>

definition resolveKnown :: "host \<Rightarrow> filesystem \<Rightarrow> path \<Rightarrow> string \<Rightarrow> resolution" where
  "resolveKnown h fsys baseDir importPath =
     (if isReact importPath then
        \<lparr>finalImportPath = dataUrl h reactGlue, found = True, resolvedPath = ''''\<rparr>
      else if isReactDOM importPath then
        \<lparr>finalImportPath = dataUrl h reactDomGlue, found = True, resolvedPath = ''''\<rparr>
      else if isReactNative importPath then
        \<lparr>finalImportPath = '''', found = True,
         resolvedPath = (case localRequire h baseDir ''react-native-web'' of
                           Inr p \<Rightarrow> p
                         | Inl e \<Rightarrow> ''react-native-web'')\<rparr>
      else if isFramework importPath \<or> importPath = ''@float-v/lite'' then
        \<lparr>finalImportPath = '''', found = True,
         resolvedPath = (if existsSync fsys (path_resolve h [module_dir h, ''..'', ''index.js''])
                         then path_resolve h [module_dir h, ''..'', ''index.js'']
                         else path_resolve h [module_dir h, ''..'', ''index.ts''])\<rparr>
      else \<lparr>finalImportPath = '''', found = False, resolvedPath = ''''\<rparr>)"

text \<open>
  Lines 219 to 225, the loop over the extensions: each turn tries the stripped path with
  the extension and then the index file of the resolved path with the extension; the first
  path that exists ends the loop.
\<close>

definition extensions :: "string list" where
  "extensions = [''.tsx'', ''.ts'', ''.jsx'', ''.js'', ''.mjs'', '''']"

fun probe :: "host \<Rightarrow> filesystem \<Rightarrow> path \<Rightarrow> path \<Rightarrow> string list \<Rightarrow> path option" where
  "probe h fsys strippedPath resolved [] = None"
| "probe h fsys strippedPath resolved (ext # exts) =
     (if existsSync fsys (strippedPath @ ext) then Some (strippedPath @ ext)
      else if existsSync fsys (path_join h [resolved, ''index'' @ ext])
           then Some (path_join h [resolved, ''index'' @ ext])
      else probe h fsys strippedPath resolved exts)"

definition isRelative :: "string \<Rightarrow> bool" where
  "isRelative importPath =
     (js_startsWith importPath ''./'' \<or> js_startsWith importPath ''../'' \<or> js_startsWith importPath ''@/'')"

text \<open>Lines 214 to 216.\<close>

definition resolveBase :: "host \<Rightarrow> path \<Rightarrow> string \<Rightarrow> path" where
  "resolveBase h baseDir importPath =
     (if js_startsWith importPath ''@/''
      then path_resolve h [h_cwd h, js_slice_from importPath 2]
      else path_resolve h [baseDir, importPath])"

text \<open>Lines 212 to 227.\<close>

definition resolveRelative :: "host \<Rightarrow> filesystem \<Rightarrow> path \<Rightarrow> string \<Rightarrow> resolution \<Rightarrow> resolution" where
  "resolveRelative h fsys baseDir importPath r =
     (if \<not> found r then
        (if isRelative importPath then
           (case probe h fsys (stripJsExt (resolveBase h baseDir importPath))
                   (resolveBase h baseDir importPath) extensions of
              Some p \<Rightarrow> r\<lparr>resolvedPath := p, found := True\<rparr>
            | None \<Rightarrow> r\<lparr>resolvedPath := resolveBase h baseDir importPath\<rparr>)
         else r)
      else r)"

text \<open>
  Lines 251 to 259, and again lines 265 to 276: a specifier that starts with neither
  \<^verbatim>\<open>.\<close> nor \<^verbatim>\<open>/\<close> nor \<^verbatim>\<open>file://\<close> is resolved in the scope of the base directory.
\<close>

definition bareFallback :: "host \<Rightarrow> path \<Rightarrow> string \<Rightarrow> resolution \<Rightarrow> resolution" where
  "bareFallback h baseDir importPath r =
     (if \<not> found r \<and> \<not> js_startsWith importPath ''.'' \<and> \<not> js_startsWith importPath ''/''
         \<and> \<not> js_startsWith importPath ''file://'' then
        (case localRequire h baseDir importPath of
           Inr resolved \<Rightarrow> if resolved \<noteq> '''' then r\<lparr>resolvedPath := resolved, found := True\<rparr> else r
         | Inl e \<Rightarrow> r)
      else r)"

text \<open>Lines 231 to 261.\<close>

definition autoHeal :: "host \<Rightarrow> path \<Rightarrow> string \<Rightarrow> resolution \<Rightarrow> resolution" where
  "autoHeal h baseDir importPath r =
     (if \<not> found r then
        bareFallback h baseDir importPath
          (case localRequire h baseDir importPath of
             Inr resolved \<Rightarrow>
               if path_extname h resolved \<in> set [''.ts'', ''.tsx'', ''.jsx'']
               then r\<lparr>resolvedPath := resolved, found := True\<rparr>
               else r
           | Inl e \<Rightarrow> r)
      else r)"

text \<open>Lines 146 to 276: what one turn knows when it reaches \<^verbatim>\<open>continue\<close>.\<close>

definition resolveSpecifier :: "host \<Rightarrow> filesystem \<Rightarrow> path \<Rightarrow> string \<Rightarrow> resolution" where
  "resolveSpecifier h fsys baseDir importPath =
     bareFallback h baseDir importPath
       (autoHeal h baseDir importPath
          (resolveRelative h fsys baseDir importPath
             (resolveKnown h fsys baseDir importPath)))"

text \<open>Lines 285 and 286: the cache file of a dependency.\<close>

definition cachedFileOf :: "host \<Rightarrow> path \<Rightarrow> path \<Rightarrow> path" where
  "cachedFileOf h cacheDir resolved =
     path_join h [cacheDir, ''dep_'' @ take 16 (sha256_hex h resolved) @ ''.mjs'']"

text \<open>
  Line 287: \<^verbatim>\<open>!fs.existsSync(cachedFile) || fs.statSync(resolvedPath).mtimeMs >
  fs.statSync(cachedFile).mtimeMs\<close>, the left operand first; \<^verbatim>\<open>statSync\<close> throws on a path
  that does not exist.
\<close>

definition needsRegeneration :: "filesystem \<Rightarrow> path \<Rightarrow> path \<Rightarrow> error + bool" where
  "needsRegeneration fsys resolved cachedFile =
     (if \<not> existsSync fsys cachedFile then Inr True
      else (case statMtimeMs fsys resolved of
              Inl e \<Rightarrow> Inl e
            | Inr ts \<Rightarrow>
                (case statMtimeMs fsys cachedFile of
                   Inl e \<Rightarrow> Inl e
                 | Inr tc \<Rightarrow> Inr (ts > tc))))"

text \<open>
  Lines 302 to 308, the \<^verbatim>\<open>catch\<close> of a failed regeneration: the error is thrown again, after
  the debug path when \<^verbatim>\<open>vibeDebug\<close> is set.
\<close>

definition rethrow :: "host \<Rightarrow> bool \<Rightarrow> path \<Rightarrow> state \<Rightarrow> error \<Rightarrow> unit outcome" where
  "rethrow h vibeDebug resolved st e =
     (if vibeDebug then
        (case dump_evidence h resolved e of
           Some e' \<Rightarrow> Some (st, Inl e')
         | None \<Rightarrow> Some (st, Inl e))
      else Some (st, Inl e))"

text \<open>
  Lines 288 to 308, with the recursive call of \<^verbatim>\<open>rewriteImports\<close> as the parameter
  \<^verbatim>\<open>again\<close> (it takes the state, the code and the base directory).
\<close>

definition regenerate ::
  "(state \<Rightarrow> string \<Rightarrow> path \<Rightarrow> string outcome) \<Rightarrow> host \<Rightarrow> bool \<Rightarrow> path \<Rightarrow> path \<Rightarrow> state \<Rightarrow> unit outcome" where
  "regenerate again h vibeDebug resolved cachedFile st =
     (case readFileSync (fs st) resolved of
        Inl e \<Rightarrow> rethrow h vibeDebug resolved st e
      | Inr depSource \<Rightarrow>
          (let st1 = st\<lparr>events := events st @ [EsbuildTransform resolved]\<rparr> in
           case esbuild_transform h (getLoader (path_extname h resolved)) resolved depSource of
             Inl e \<Rightarrow> rethrow h vibeDebug resolved st1 e
           | Inr depResult \<Rightarrow>
               (case again st1 depResult (path_dirname h resolved) of
                  None \<Rightarrow> None
                | Some (st2, Inl e) \<Rightarrow> rethrow h vibeDebug resolved st2 e
                | Some (st2, Inr depCode) \<Rightarrow>
                    (case writeFileSync h st2 cachedFile depCode of
                       (st3, Inl e) \<Rightarrow> rethrow h vibeDebug resolved st3 e
                     | (st3, Inr u) \<Rightarrow> Some (st3, Inr ())))))"

text \<open>Lines 280 to 313: the text that goes between the quotes.\<close>

definition materialize ::
  "(state \<Rightarrow> string \<Rightarrow> path \<Rightarrow> string outcome) \<Rightarrow> host \<Rightarrow> path \<Rightarrow> bool \<Rightarrow> resolution \<Rightarrow> state \<Rightarrow> string outcome" where
  "materialize again h cacheDir vibeDebug r st =
     (if finalImportPath r = '''' then
        (if path_extname h (resolvedPath r) \<in> set [''.ts'', ''.tsx'', ''.jsx''] then
           (case needsRegeneration (fs st) (resolvedPath r) (cachedFileOf h cacheDir (resolvedPath r)) of
              Inl e \<Rightarrow> Some (st, Inl e)
            | Inr False \<Rightarrow> Some (st, Inr (pathToFileURL h (cachedFileOf h cacheDir (resolvedPath r))))
            | Inr True \<Rightarrow>
                (case regenerate again h vibeDebug (resolvedPath r)
                        (cachedFileOf h cacheDir (resolvedPath r)) st of
                   None \<Rightarrow> None
                 | Some (st', Inl e) \<Rightarrow> Some (st', Inl e)
                 | Some (st', Inr u) \<Rightarrow>
                     Some (st', Inr (pathToFileURL h (cachedFileOf h cacheDir (resolvedPath r))))))
         else Some (st, Inr (pathToFileURL h (resolvedPath r))))
      else Some (st, Inr (finalImportPath r)))"

text \<open>\<^verbatim>\<open>const replacement = `from '${finalImportPath}'`;\<close>\<close>

definition replacementOf :: "string \<Rightarrow> string" where
  "replacementOf final = ''from '' @ [sq] @ final @ [sq]"

text \<open>
  Lines 145 to 320, the loop over the matches, with the variables \<^verbatim>\<open>offset\<close> and \<^verbatim>\<open>newCode\<close>.
  \<^verbatim>\<open>if (!found && !finalImportPath) continue;\<close> leaves the match as it is.
\<close>

primrec rewriteLoop ::
  "(state \<Rightarrow> string \<Rightarrow> path \<Rightarrow> string outcome) \<Rightarrow> host \<Rightarrow> path \<Rightarrow> path \<Rightarrow> bool \<Rightarrow>
   rmatch list \<Rightarrow> int \<Rightarrow> string \<Rightarrow> state \<Rightarrow> string outcome" where
  "rewriteLoop again h baseDir cacheDir vibeDebug [] = (\<lambda>offset newCode st. Some (st, Inr newCode))"
| "rewriteLoop again h baseDir cacheDir vibeDebug (m # ms) = (\<lambda>offset newCode st.
     (let r = resolveSpecifier h (fs st) baseDir (m_spec m) in
      if \<not> found r \<and> finalImportPath r = '''' then
        rewriteLoop again h baseDir cacheDir vibeDebug ms offset newCode st
      else
        (case materialize again h cacheDir vibeDebug r st of
           None \<Rightarrow> None
         | Some (st', Inl e) \<Rightarrow> Some (st', Inl e)
         | Some (st', Inr final) \<Rightarrow>
             (let replacement = replacementOf final;
                  start = int (m_index m) + offset;
                  end = start + int (length (m_text m))
              in rewriteLoop again h baseDir cacheDir vibeDebug ms
                   (offset + (int (length replacement) - int (length (m_text m))))
                   (js_slice newCode 0 start @ replacement @ js_slice_from newCode end)
                   st'))))"

text \<open>
  \<^verbatim>\<open>rewriteImports(code, baseDir, cacheDir, vibeDebug)\<close>.  The fuel bounds the depth of the
  recursion through dependencies: two typed files that import each other make the real
  function call itself for ever, and the model then returns \<^const>\<open>None\<close> for every fuel.
\<close>

primrec rewriteImports ::
  "nat \<Rightarrow> host \<Rightarrow> state \<Rightarrow> string \<Rightarrow> path \<Rightarrow> path \<Rightarrow> bool \<Rightarrow> string outcome" where
  "rewriteImports 0 = (\<lambda>h st code baseDir cacheDir vibeDebug. None)"
| "rewriteImports (Suc n) = (\<lambda>h st code baseDir cacheDir vibeDebug.
     rewriteLoop (\<lambda>st' code' baseDir'. rewriteImports n h st' code' baseDir' cacheDir vibeDebug)
       h baseDir cacheDir vibeDebug (matchAll code) 0 code st)"

section \<open>transformFile\<close>

record options =
  useCache :: bool
  vibeDebug :: bool

text \<open>
  Lines 63 to 98: from the source text to the rewritten code and the name of the temporary
  file that will hold it.
\<close>

definition prepareCode :: "nat \<Rightarrow> host \<Rightarrow> state \<Rightarrow> path \<Rightarrow> options \<Rightarrow> (path \<times> string) outcome" where
  "prepareCode n h st absolutePath opts =
     (case readFileSync (fs st) absolutePath of
        Inl e \<Rightarrow> Some (st, Inl e)
      | Inr source \<Rightarrow>
     (let ext = path_extname h absolutePath;
          st1 = st\<lparr>events := events st @ [EsbuildTransform absolutePath]\<rparr> in
      case esbuild_transform h (getLoader ext) absolutePath source of
        Inl e \<Rightarrow> Some (st1, Inl e)
      | Inr result \<Rightarrow>
     (let tempDir = path_join h [h_cwd h, ''.float'', ''.cache''] in
      case mkdirSync h st1 tempDir of
        (st2, Inl e) \<Rightarrow> Some (st2, Inl e)
      | (st2, Inr u) \<Rightarrow>
     (let tempFile = path_join h [tempDir, path_basename h absolutePath ext @ ''_'' @ show_nat (now st2) @ ''.mjs''] in
      case rewriteImports n h st2 (prependReact result) (path_dirname h absolutePath) tempDir (vibeDebug opts) of
        None \<Rightarrow> None
      | Some (st3, Inl e) \<Rightarrow> Some (st3, Inl e)
      | Some (st3, Inr code) \<Rightarrow> Some (st3, Inr (tempFile, stripCssImports code))))))"

text \<open>Lines 63 to 116: the load of a file that the module cache does not answer.\<close>

definition loadFresh :: "nat \<Rightarrow> host \<Rightarrow> state \<Rightarrow> path \<Rightarrow> real \<Rightarrow> options \<Rightarrow> module outcome" where
  "loadFresh n h st absolutePath mtime opts =
     (case prepareCode n h st absolutePath opts of
        None \<Rightarrow> None
      | Some (st3, Inl e) \<Rightarrow> Some (st3, Inl e)
      | Some (st3, Inr (tempFile, code)) \<Rightarrow>
     (case writeFileSync h st3 tempFile code of
        (st4, Inl e) \<Rightarrow> Some (st4, Inl e)
      | (st4, Inr u) \<Rightarrow>
     (let st5 = st4\<lparr>events := events st4 @ [DynamicImport (pathToFileURL h tempFile)]\<rparr> in
      case dynamic_import h (fs st5) (pathToFileURL h tempFile) of
        Inr m \<Rightarrow>
          Some (st5\<lparr>moduleCache := (moduleCache st5)(absolutePath \<mapsto> (m, mtime)),
                     immediates := (if vibeDebug opts then immediates st5 else immediates st5 @ [tempFile])\<rparr>,
                Inr m)
      | Inl e \<Rightarrow> Some (if vibeDebug opts then st5 else unlinkQuiet st5 tempFile, Inl e))))"

text \<open>
  \<^verbatim>\<open>transformFile(filePath, options)\<close>, lines 38 to 61.  The option \<^verbatim>\<open>useCache\<close> is read from
  the options and never used.
\<close>

definition transformFile :: "nat \<Rightarrow> host \<Rightarrow> state \<Rightarrow> string \<Rightarrow> options \<Rightarrow> module outcome" where
  "transformFile n h st filePath opts =
     (let absolutePath = (if path_isAbsolute h filePath then filePath else path_resolve h [filePath]) in
      if \<not> existsSync (fs st) absolutePath then Some (st, Inl (FileNotFound absolutePath))
      else (case statMtimeMs (fs st) absolutePath of
              Inl e \<Rightarrow> Some (st, Inl e)
            | Inr mtime \<Rightarrow>
                (case moduleCache st absolutePath of
                   Some (m, t) \<Rightarrow>
                     if t = mtime then Some (st, Inr m)
                     else loadFresh n h st absolutePath mtime opts
                 | None \<Rightarrow> loadFresh n h st absolutePath mtime opts)))"

text \<open>The callbacks of \<^verbatim>\<open>setImmediate\<close>, run at the next turn of the event loop.\<close>

definition runImmediates :: "state \<Rightarrow> state" where
  "runImmediates st = (foldl unlinkQuiet st (immediates st))\<lparr>immediates := []\<rparr>"

text \<open>\<^verbatim>\<open>clearModuleCache(filePath?)\<close>\<close>

definition clearModuleCache :: "host \<Rightarrow> state \<Rightarrow> string option \<Rightarrow> state" where
  "clearModuleCache h st filePath =
     (case filePath of
        Some p \<Rightarrow> if p \<noteq> '''' then st\<lparr>moduleCache := (moduleCache st)(path_resolve h [p] := None)\<rparr>
                  else st\<lparr>moduleCache := Map.empty\<rparr>
      | None \<Rightarrow> st\<lparr>moduleCache := Map.empty\<rparr>)"

section \<open>A POSIX host for the examples\<close>

text \<open>
  The examples below run the model on a concrete host: \<^verbatim>\<open>node:path\<close> in its POSIX flavour,
  \<^verbatim>\<open>pathToFileURL\<close> with every character escaped but letters, digits and
  \<^verbatim>\<open>-._/!$&'()*+,;=:@\<close> (the paths of the examples hold none that is escaped), \<^verbatim>\<open>Buffer\<close>'s base64 of the UTF-8 bytes,
  a table of installed packages for module resolution, a table of SHA-256 digests for the
  paths the examples hash, and a transformer that returns the source text as it is (the
  files of the examples are plain JavaScript already).
\<close>

fun splitSlash :: "string \<Rightarrow> string list" where
  "splitSlash [] = [[]]"
| "splitSlash (c # cs) =
     (if c = CHR ''/'' then [] # splitSlash cs
      else (case splitSlash cs of [] \<Rightarrow> [[c]] | x # xs \<Rightarrow> (c # x) # xs))"

fun joinSlash :: "string list \<Rightarrow> string" where
  "joinSlash [] = []"
| "joinSlash [s] = s"
| "joinSlash (s # t # ss) = s @ ''/'' @ joinSlash (t # ss)"

text \<open>
  The segments of a normalized path: empty segments and \<^verbatim>\<open>.\<close> go, \<^verbatim>\<open>..\<close> takes the segment
  before it away (and stays when a relative path has nothing left to take).
\<close>

fun normSegs :: "bool \<Rightarrow> string list \<Rightarrow> string list \<Rightarrow> string list" where
  "normSegs ab acc [] = rev acc"
| "normSegs ab acc (s # ss) =
     (if s = [] \<or> s = ''.'' then normSegs ab acc ss
      else if s = ''..'' then
        (case acc of
           [] \<Rightarrow> normSegs ab (if ab then [] else [''..'']) ss
         | a # as \<Rightarrow> if a = ''..'' then normSegs ab (''..'' # acc) ss else normSegs ab as ss)
      else normSegs ab (s # acc) ss)"

definition posix_normalize :: "string \<Rightarrow> string" where
  "posix_normalize p =
     (if p = [] then ''.''
      else (let ab = js_startsWith p ''/'';
                trailing = (last p = CHR ''/'');
                body = joinSlash (normSegs ab [] (splitSlash p))
            in if body = [] then (if ab then ''/'' else if trailing then ''./'' else ''.'')
               else (if ab then ''/'' else []) @ body @ (if trailing then ''/'' else [])))"

definition posix_join :: "string list \<Rightarrow> string" where
  "posix_join parts = posix_normalize (joinSlash (filter (\<lambda>s. s \<noteq> []) parts))"

definition posix_resolve :: "path \<Rightarrow> string list \<Rightarrow> string" where
  "posix_resolve cwd parts =
     ''/'' @ joinSlash (normSegs True []
       (splitSlash (foldl (\<lambda>acc p. if p = [] then acc
                                     else if js_startsWith p ''/'' then p
                                     else acc @ ''/'' @ p) cwd parts)))"

definition stripTrailingSlashes :: "string \<Rightarrow> string" where
  "stripTrailingSlashes p = rev (dropWhile (\<lambda>c. c = CHR ''/'') (rev p))"

definition posix_dirname :: "string \<Rightarrow> string" where
  "posix_dirname p =
     (let s = stripTrailingSlashes p in
      if CHR ''/'' \<notin> set (drop 1 s) then (if js_startsWith p ''/'' then ''/'' else ''.'')
      else rev (drop 1 (dropWhile (\<lambda>c. c \<noteq> CHR ''/'') (rev s))))"

definition posix_basename :: "string \<Rightarrow> string \<Rightarrow> string" where
  "posix_basename p ext =
     (let base = rev (takeWhile (\<lambda>c. c \<noteq> CHR ''/'') (rev (stripTrailingSlashes p))) in
      if ext \<noteq> [] \<and> suffix ext base \<and> base \<noteq> ext then take (length base - length ext) base
      else base)"

definition posix_extname :: "string \<Rightarrow> string" where
  "posix_extname p =
     (let base = posix_basename p [] in
      if CHR ''.'' \<notin> set base \<or> base = ''..'' then []
      else (let e = CHR ''.'' # rev (takeWhile (\<lambda>c. c \<noteq> CHR ''.'') (rev base)) in
            if length e = length base then [] else e))"

definition hexDigit :: "int \<Rightarrow> char" where
  "hexDigit v = (if v < 10 then char_of (48 + v) else char_of (55 + v))"

definition urlSafe :: "char \<Rightarrow> bool" where
  "urlSafe c =
     (let n = (of_char c :: int) in
      (48 \<le> n \<and> n \<le> 57) \<or> (65 \<le> n \<and> n \<le> 90) \<or> (97 \<le> n \<and> n \<le> 122) \<or>
      c \<in> set ''-._/!$&'()*+,;=:@'')"

definition utf8Bytes :: "string \<Rightarrow> int list" where
  "utf8Bytes s =
     concat (map (\<lambda>c. let n = (of_char c :: int) in
                       if n < 128 then [n] else [192 + n div 64, 128 + n mod 64]) s)"

definition urlEscape :: "char \<Rightarrow> string" where
  "urlEscape c =
     (if urlSafe c then [c]
      else concat (map (\<lambda>b. [CHR ''%'', hexDigit (b div 16), hexDigit (b mod 16)]) (utf8Bytes [c])))"

definition posix_pathToFileURL :: "path \<Rightarrow> path \<Rightarrow> string" where
  "posix_pathToFileURL cwd p = ''file://'' @ concat (map urlEscape (posix_resolve cwd [p]))"

text \<open>The digit of a six-bit value, and the groups of three bytes with their padding.\<close>

definition base64Digit :: "int \<Rightarrow> char" where
  "base64Digit v =
     (if v < 26 then char_of (65 + v)
      else if v < 52 then char_of (71 + v)
      else if v < 62 then char_of (v - 4)
      else if v = 62 then CHR ''+''
      else CHR ''/'')"

fun base64Bytes :: "int list \<Rightarrow> string" where
  "base64Bytes [] = []"
| "base64Bytes [a] =
     [base64Digit (a div 4), base64Digit ((a mod 4) * 16), CHR ''='', CHR ''='']"
| "base64Bytes [a, b] =
     [base64Digit (a div 4), base64Digit ((a mod 4) * 16 + b div 16),
      base64Digit ((b mod 16) * 4), CHR ''='']"
| "base64Bytes (a # b # c # rest) =
     [base64Digit (a div 4), base64Digit ((a mod 4) * 16 + b div 16),
      base64Digit ((b mod 16) * 4 + c div 64), base64Digit (c mod 64)] @ base64Bytes rest"

definition bufferBase64 :: "string \<Rightarrow> string" where
  "bufferBase64 s = base64Bytes (utf8Bytes s)"

text \<open>
  The first sixteen digits are all the module uses of a digest: those of the source
  paths of the examples, padded with zeros.
\<close>

definition sampleSha256 :: "string \<Rightarrow> string" where
  "sampleSha256 s =
     (if s = ''/p/src/dep.tsx'' then ''d4a4e4f70de74702'' @ replicate 48 (CHR ''0'')
      else if s = ''/p/src/util.ts'' then ''f1d154a62a87aff1'' @ replicate 48 (CHR ''0'')
      else if s = ''/p/src/Button.tsx'' then ''f8c7dcbd1e6a783f'' @ replicate 48 (CHR ''0'')
      else if s = ''/p/src/lib.ts'' then ''ec25731f2d0d914d'' @ replicate 48 (CHR ''0'')
      else if s = ''/p/src/konst.ts'' then ''a3d8631266da2359'' @ replicate 48 (CHR ''0'')
      else replicate 64 (CHR ''0''))"

text \<open>
  The host, given the installed packages (specifier and resolved file) and what a dynamic
  import answers.  The working directory is \<^verbatim>\<open>/p\<close>; the rewriter itself is installed in
  \<^verbatim>\<open>/p/node_modules/@float-v/core/dist/build\<close>.
\<close>

definition posixHost :: "(string \<times> path) list \<Rightarrow> (filesystem \<Rightarrow> string \<Rightarrow> error + module) \<Rightarrow> host" where
  "posixHost installed importer =
     \<lparr>h_cwd = ''/p'',
      path_isAbsolute = (\<lambda>p. js_startsWith p ''/''),
      path_resolve = posix_resolve ''/p'',
      path_join = posix_join,
      path_dirname = posix_dirname,
      path_extname = posix_extname,
      path_basename = posix_basename,
      pathToFileURL = posix_pathToFileURL ''/p'',
      require_resolve = (\<lambda>file spec. case map_of installed spec of
                                         Some p \<Rightarrow> Inr p
                                       | None \<Rightarrow> Inl (HostError ''MODULE_NOT_FOUND'')),
      realpathSync = (\<lambda>p. Inr p),
      esbuild_transform = (\<lambda>l file source. Inr source),
      sha256_hex = sampleSha256,
      base64 = bufferBase64,
      module_dir = ''/p/node_modules/@float-v/core/dist/build'',
      dynamic_import = importer,
      dump_evidence = (\<lambda>file e. None)\<rparr>"

definition importOk :: "filesystem \<Rightarrow> string \<Rightarrow> error + module" where
  "importOk fsys url = Inr (Module (length url))"

definition importFails :: "filesystem \<Rightarrow> string \<Rightarrow> error + module" where
  "importFails fsys url = Inl (HostError ''ERR_MODULE_NOT_FOUND'')"

text \<open>A process that has just started: nothing cached, nothing locked.\<close>

definition freshState :: "filesystem \<Rightarrow> nat \<Rightarrow> state" where
  "freshState fsys t =
     \<lparr>fs = fsys, now = t, moduleCache = Map.empty, lockedReactPath = None,
      lockedReactDOMPath = None, immediates = [], events = []\<rparr>"

section \<open>What rewriteImports leaves alone\<close>

text \<open>
  The rewriter writes cache files and records transformer calls; it never removes a file
  and touches neither the clock, the module cache, the lock nor the scheduled removals.
\<close>

definition evolves :: "state \<Rightarrow> state \<Rightarrow> bool" where
  "evolves st st' \<longleftrightarrow>
     dom (fs st) \<subseteq> dom (fs st') \<and> now st' = now st \<and> moduleCache st' = moduleCache st \<and>
     lockedReactPath st' = lockedReactPath st \<and> lockedReactDOMPath st' = lockedReactDOMPath st \<and>
     immediates st' = immediates st \<and> prefix (events st) (events st')"

definition evolving :: "(state \<Rightarrow> string \<Rightarrow> path \<Rightarrow> string outcome) \<Rightarrow> bool" where
  "evolving again \<longleftrightarrow> (\<forall>st code baseDir st' x. again st code baseDir = Some (st', x) \<longrightarrow> evolves st st')"

lemma evolvingD: "evolving again \<Longrightarrow> again st code baseDir = Some (st', x) \<Longrightarrow> evolves st st'"
  unfolding evolving_def by blast

lemma rewriteLoop_skip:
  assumes "\<not> found (resolveSpecifier h (fs st) baseDir (m_spec m))"
      and "finalImportPath (resolveSpecifier h (fs st) baseDir (m_spec m)) = ''''"
  shows "rewriteLoop again h baseDir cacheDir d (m # ms) offset newCode st =
         rewriteLoop again h baseDir cacheDir d ms offset newCode st"
  using assms by (simp add: Let_def)

lemma rewriteLoop_step:
  assumes "found (resolveSpecifier h (fs st) baseDir (m_spec m)) \<or>
           finalImportPath (resolveSpecifier h (fs st) baseDir (m_spec m)) \<noteq> ''''"
  shows "rewriteLoop again h baseDir cacheDir d (m # ms) offset newCode st =
         (case materialize again h cacheDir d (resolveSpecifier h (fs st) baseDir (m_spec m)) st of
            None \<Rightarrow> None
          | Some (st', Inl e) \<Rightarrow> Some (st', Inl e)
          | Some (st', Inr final) \<Rightarrow>
              rewriteLoop again h baseDir cacheDir d ms
                (offset + (int (length (replacementOf final)) - int (length (m_text m))))
                (js_slice newCode 0 (int (m_index m) + offset) @ replacementOf final @
                 js_slice_from newCode (int (m_index m) + offset + int (length (m_text m))))
                st')"
  using assms by (auto simp: Let_def split: option.splits sum.splits prod.splits)

lemma evolves_refl: "evolves st st"
  by (simp add: evolves_def)

lemma evolves_trans: "evolves a b \<Longrightarrow> evolves b c \<Longrightarrow> evolves a c"
  by (auto simp: evolves_def)

lemma evolves_event: "evolves st (st\<lparr>events := events st @ ev\<rparr>)"
  by (simp add: evolves_def)

lemma writeFileSync_evolves: "writeFileSync h st p text = (st', x) \<Longrightarrow> evolves st st'"
  by (auto simp: writeFileSync_def evolves_def split: option.splits fnode.splits)

lemma foldr_mkdir_dom: "dom fsys \<subseteq> dom (foldr (\<lambda>dir f. if f dir = None then f(dir \<mapsto> Dir t) else f) dirs fsys)"
  by (induction dirs) (auto split: if_splits)

lemma mkdirSync_evolves: "mkdirSync h st p = (st', x) \<Longrightarrow> evolves st st'"
  using foldr_mkdir_dom [of "fs st" "real (now st)" "p # ancestors h p"]
  by (auto simp: mkdirSync_def evolves_def split: if_splits)

lemma rethrow_evolves: "rethrow h d p st e = Some (st', x) \<Longrightarrow> st' = st"
  by (auto simp: rethrow_def split: if_splits option.splits)

lemma regenerate_evolves:
  assumes "evolving again" and "regenerate again h d resolved cachedFile st = Some (st', x)"
  shows "evolves st st'"
proof (cases "readFileSync (fs st) resolved")
  case (Inl e)
  with assms(2) show ?thesis by (auto simp: regenerate_def evolves_refl dest: rethrow_evolves)
next
  case (Inr depSource)
  let ?st1 = "st\<lparr>events := events st @ [EsbuildTransform resolved]\<rparr>"
  have e1: "evolves st ?st1" by (rule evolves_event)
  show ?thesis
  proof (cases "esbuild_transform h (getLoader (path_extname h resolved)) resolved depSource")
    case (Inl e)
    with Inr assms(2) e1 show ?thesis by (auto simp: regenerate_def Let_def dest: rethrow_evolves)
  next
    case r: (Inr depResult)
    show ?thesis
    proof (cases "again ?st1 depResult (path_dirname h resolved)")
      case None
      with Inr r assms(2) show ?thesis by (simp add: regenerate_def Let_def)
    next
      case (Some a)
      obtain st2 y where a: "a = (st2, y)" by (cases a)
      with Some assms(1) have e2: "evolves ?st1 st2" by (auto dest: evolvingD)
      show ?thesis
      proof (cases y)
        case (Inl e)
        with Inr r Some a assms(2) have "st' = st2"
          by (auto simp: regenerate_def Let_def dest: rethrow_evolves)
        with e1 e2 show ?thesis by (blast intro: evolves_trans)
      next
        case yr: (Inr depCode)
        obtain st3 z where w: "writeFileSync h st2 cachedFile depCode = (st3, z)"
          by (cases "writeFileSync h st2 cachedFile depCode")
        then have e3: "evolves st2 st3" by (rule writeFileSync_evolves)
        from Inr r Some a yr w assms(2) have "st' = st3"
          by (cases z) (auto simp: regenerate_def Let_def dest: rethrow_evolves)
        with e1 e2 e3 show ?thesis by (blast intro: evolves_trans)
      qed
    qed
  qed
qed

lemma materialize_evolves:
  assumes "evolving again" and "materialize again h cacheDir d r st = Some (st', x)"
  shows "evolves st st'"
  using assms(2) regenerate_evolves [OF assms(1)]
  by (auto simp: materialize_def evolves_refl split: if_splits sum.splits bool.splits option.splits)

lemma rewriteLoop_evolves:
  assumes "evolving again"
  shows "rewriteLoop again h baseDir cacheDir d ms offset newCode st = Some (st', x) \<Longrightarrow> evolves st st'"
proof (induction ms arbitrary: offset newCode st)
  case Nil
  then show ?case by (simp add: evolves_refl)
next
  case (Cons m ms)
  let ?r = "resolveSpecifier h (fs st) baseDir (m_spec m)"
  show ?case
  proof (cases "\<not> found ?r \<and> finalImportPath ?r = ''''")
    case True
    then have "rewriteLoop again h baseDir cacheDir d (m # ms) offset newCode st =
               rewriteLoop again h baseDir cacheDir d ms offset newCode st"
      using rewriteLoop_skip by blast
    with Cons show ?thesis by simp
  next
    case False
    then have step: "found ?r \<or> finalImportPath ?r \<noteq> ''''" by blast
    note eq = rewriteLoop_step [OF step, of again cacheDir d ms offset newCode]
    show ?thesis
    proof (cases "materialize again h cacheDir d ?r st")
      case None
      with eq Cons.prems show ?thesis by simp
    next
      case (Some a)
      obtain st1 y where a: "a = (st1, y)" by (cases a)
      with Some have e1: "evolves st st1" using materialize_evolves [OF assms] by blast
      show ?thesis
      proof (cases y)
        case (Inl e)
        with eq Some a Cons.prems e1 show ?thesis by auto
      next
        case (Inr final)
        with eq Some a Cons.prems obtain o' c' where
          "rewriteLoop again h baseDir cacheDir d ms o' c' st1 = Some (st', x)"
          by auto
        then have "evolves st1 st'" by (rule Cons.IH)
        with e1 show ?thesis by (rule evolves_trans)
      qed
    qed
  qed
qed

lemma rewriteImports_evolving:
  "evolving (\<lambda>st code baseDir. rewriteImports n h st code baseDir cacheDir d)"
proof (induction n)
  case 0
  then show ?case by (simp add: evolving_def)
next
  case (Suc n)
  show ?case
    unfolding evolving_def
    using rewriteLoop_evolves [OF Suc] by simp
qed

lemma rewriteImports_evolves:
  "rewriteImports n h st code baseDir cacheDir d = Some (st', x) \<Longrightarrow> evolves st st'"
  using evolvingD [OF rewriteImports_evolving [of n h cacheDir d]] by blast

lemma prepareCode_evolves:
  assumes "prepareCode n h st absolutePath opts = Some (st', x)"
  shows "evolves st st'"
proof -
  have ev: "evolves st (st\<lparr>events := events st @ [EsbuildTransform absolutePath]\<rparr>)" by (rule evolves_event)
  show ?thesis
    using assms ev
    apply (simp add: prepareCode_def Let_def split: sum.splits prod.splits option.splits)
    apply (blast intro: evolves_refl evolves_trans dest: mkdirSync_evolves rewriteImports_evolves)+
    done
qed

section \<open>The rewritten code as a weave of the input\<close>

text \<open>
  \<^verbatim>\<open>wf_matches code pos ms\<close>: the matches lie in the code behind \<^verbatim>\<open>pos\<close>, in order and
  without overlap.  \<^verbatim>\<open>weave code pos ps\<close> is the code from \<^verbatim>\<open>pos\<close> on with the text of every
  match replaced by the text paired with it: the text between the matches is the input's.
  \<^verbatim>\<open>finalPath\<close> is the text that lines 146 to 313 put between the quotes, as a function of
  the file system the turn sees (\<^const>\<open>None\<close> when the turn leaves the match alone).
\<close>

fun wf_matches :: "string \<Rightarrow> nat \<Rightarrow> rmatch list \<Rightarrow> bool" where
  "wf_matches code pos [] = True"
| "wf_matches code pos (m # ms) =
     (pos \<le> m_index m \<and> m_index m + length (m_text m) \<le> length code \<and>
      take (length (m_text m)) (drop (m_index m) code) = m_text m \<and>
      wf_matches code (m_index m + length (m_text m)) ms)"

fun weave :: "string \<Rightarrow> nat \<Rightarrow> (rmatch \<times> string) list \<Rightarrow> string" where
  "weave code pos [] = drop pos code"
| "weave code pos ((m, r) # rest) =
     take (m_index m - pos) (drop pos code) @ r @ weave code (m_index m + length (m_text m)) rest"

definition finalPath :: "host \<Rightarrow> filesystem \<Rightarrow> path \<Rightarrow> path \<Rightarrow> string \<Rightarrow> string option" where
  "finalPath h fsys baseDir cacheDir importPath =
     (let r = resolveSpecifier h fsys baseDir importPath in
      if \<not> found r \<and> finalImportPath r = '''' then None
      else if finalImportPath r \<noteq> '''' then Some (finalImportPath r)
      else if path_extname h (resolvedPath r) \<in> set [''.ts'', ''.tsx'', ''.jsx'']
           then Some (pathToFileURL h (cachedFileOf h cacheDir (resolvedPath r)))
           else Some (pathToFileURL h (resolvedPath r)))"

definition rewritten :: "host \<Rightarrow> path \<Rightarrow> path \<Rightarrow> rmatch \<Rightarrow> filesystem \<Rightarrow> string" where
  "rewritten h baseDir cacheDir m fsys =
     (case finalPath h fsys baseDir cacheDir (m_spec m) of
        None \<Rightarrow> m_text m
      | Some f \<Rightarrow> replacementOf f)"

lemma wf_matches_mono: "wf_matches code pos ms \<Longrightarrow> pos' \<le> pos \<Longrightarrow> wf_matches code pos' ms"
  by (cases ms) auto

lemma scanImports_wf:
  "i = length pre \<Longrightarrow> wf_matches (pre @ s) i (scanImports i s)"
proof (induction i s arbitrary: pre rule: scanImports.induct)
  case (1 i)
  then show ?case by simp
next
  case (2 i c cs)
  show ?case
  proof (cases "matchImportAt (c # cs)")
    case None
    have len: "Suc i = length (pre @ [c])" using 2(3) by simp
    have "wf_matches ((pre @ [c]) @ cs) (Suc i) (scanImports (Suc i) cs)"
      by (rule 2(1) [OF None len])
    then have "wf_matches (pre @ c # cs) (Suc i) (scanImports (Suc i) cs)" by simp
    then have "wf_matches (pre @ c # cs) i (scanImports (Suc i) cs)"
      by (rule wf_matches_mono) simp
    with None show ?thesis by simp
  next
    case (Some a)
    obtain w g rest where a: "a = (w, g, rest)" by (cases a)
    from Some a have dec: "c # cs = w @ rest" using matchImportAt_decompose(1) by blast
    have code: "pre @ c # cs = (pre @ w) @ rest" using dec by simp
    have len: "i + length w = length (pre @ w)" using 2(3) by simp
    have p1: "(w, (g, rest)) = a" by (simp add: a)
    have p2: "(g, rest) = (g, rest)" by simp
    have ih: "wf_matches ((pre @ w) @ rest) (i + length w) (scanImports (i + length w) rest)"
      by (rule 2(2) [OF Some p1 p2 len])
    have sc: "scanImports i (c # cs) =
              \<lparr>m_index = i, m_text = w, m_spec = g\<rparr> # scanImports (i + length w) rest"
      using Some a by simp
    have t: "take (length w) (drop i ((pre @ w) @ rest)) = w" using 2(3) by simp
    have b: "i + length w \<le> length ((pre @ w) @ rest)" using 2(3) by simp
    show ?thesis unfolding sc code using ih t b by simp
  qed
qed

lemma matchAll_wf: "wf_matches code 0 (matchAll code)"
  using scanImports_wf [of 0 "[]" code] by (simp add: matchAll_def)

lemma js_slice_0: "0 \<le> b \<Longrightarrow> js_slice s 0 b = take (nat b) s"
  by (auto simp: js_slice_def Let_def min_def)

lemma js_slice_from_nonneg: "0 \<le> a \<Longrightarrow> js_slice_from s a = drop (nat a) s"
  by (auto simp: js_slice_from_def js_slice_def Let_def min_def)

lemma materialize_final:
  assumes "materialize again h cacheDir d r st = Some (st', Inr f)"
  shows "f = (if finalImportPath r \<noteq> '''' then finalImportPath r
              else if path_extname h (resolvedPath r) \<in> set [''.ts'', ''.tsx'', ''.jsx'']
                   then pathToFileURL h (cachedFileOf h cacheDir (resolvedPath r))
                   else pathToFileURL h (resolvedPath r))"
  using assms
  by (auto simp: materialize_def split: if_splits sum.splits bool.splits option.splits)

lemma rewritten_skip:
  assumes "\<not> found (resolveSpecifier h fsys baseDir (m_spec m))"
      and "finalImportPath (resolveSpecifier h fsys baseDir (m_spec m)) = ''''"
  shows "rewritten h baseDir cacheDir m fsys = m_text m"
  using assms by (simp add: rewritten_def finalPath_def)

lemma rewritten_step:
  assumes "found (resolveSpecifier h (fs st) baseDir (m_spec m)) \<or>
           finalImportPath (resolveSpecifier h (fs st) baseDir (m_spec m)) \<noteq> ''''"
      and "materialize again h cacheDir d (resolveSpecifier h (fs st) baseDir (m_spec m)) st = Some (st', Inr f)"
  shows "rewritten h baseDir cacheDir m (fs st) = replacementOf f"
  using assms(1) materialize_final [OF assms(2)]
  by (auto simp: rewritten_def finalPath_def Let_def)

lemma split_at_match:
  assumes "pos \<le> i" and "i + n \<le> length code" and "take n (drop i code) = t"
  shows "drop pos code = take (i - pos) (drop pos code) @ t @ drop (i + n) code"
proof -
  have a: "drop pos code = take (i - pos) (drop pos code) @ drop (i - pos) (drop pos code)"
    by (rule append_take_drop_id [symmetric])
  have b: "drop (i - pos) (drop pos code) = drop i code" using assms(1) by simp
  have c: "drop i code = take n (drop i code) @ drop n (drop i code)"
    by (rule append_take_drop_id [symmetric])
  have d: "drop n (drop i code) = drop (i + n) code" by (simp add: add.commute)
  show ?thesis using a b c d assms(3) by metis
qed

lemma rewriteLoop_weave:
  assumes ev: "evolving again"
  shows "wf_matches code pos ms \<Longrightarrow> newCode = pre @ drop pos code \<Longrightarrow>
         offset = int (length pre) - int pos \<Longrightarrow>
         rewriteLoop again h baseDir cacheDir d ms offset newCode st = Some (st', Inr out) \<Longrightarrow>
         \<exists>fss. length fss = length ms \<and>
               (\<forall>f\<in>set fss. dom (fs st) \<subseteq> dom f \<and> dom f \<subseteq> dom (fs st')) \<and>
               out = pre @ weave code pos (zip ms (map2 (rewritten h baseDir cacheDir) ms fss))"
proof (induction ms arbitrary: pos pre offset newCode st)
  case Nil
  then show ?case by simp
next
  case (Cons m ms)
  let ?r = "resolveSpecifier h (fs st) baseDir (m_spec m)"
  let ?i = "m_index m"
  let ?n = "length (m_text m)"
  define gap where "gap = take (?i - pos) (drop pos code)"
  define tail where "tail = drop (?i + ?n) code"
  from Cons.prems(1) have pos: "pos \<le> ?i" and bound: "?i + ?n \<le> length code"
    and mtxt: "take ?n (drop ?i code) = m_text m" and wf': "wf_matches code (?i + ?n) ms"
    by simp_all
  have dpc: "drop pos code = gap @ m_text m @ tail"
    unfolding gap_def tail_def using split_at_match [OF pos bound mtxt] .
  have gaplen: "length gap = ?i - pos" unfolding gap_def using pos bound by simp
  have nc0: "newCode = pre @ gap @ m_text m @ tail" using Cons.prems(2) dpc by simp
  have whole: "evolves st st'" using rewriteLoop_evolves [OF ev Cons.prems(4)] .
  have d0: "dom (fs st) \<subseteq> dom (fs st')" using whole by (simp add: evolves_def)
  have wv: "\<And>r ps. weave code pos ((m, r) # ps) = gap @ r @ weave code (?i + ?n) ps"
    by (simp add: gap_def)
  show ?case
  proof (cases "\<not> found ?r \<and> finalImportPath ?r = ''''")
    case True
    then have run: "rewriteLoop again h baseDir cacheDir d ms offset newCode st = Some (st', Inr out)"
      using rewriteLoop_skip [of h st baseDir m again cacheDir d ms offset newCode] Cons.prems(4) by simp
    have nc: "newCode = (pre @ gap @ m_text m) @ drop (?i + ?n) code"
      using nc0 by (simp add: tail_def)
    have off: "offset = int (length (pre @ gap @ m_text m)) - int (?i + ?n)"
      using Cons.prems(3) gaplen pos by simp
    from Cons.IH [OF wf' nc off run] obtain fss where
      fss: "length fss = length ms"
        "\<forall>f\<in>set fss. dom (fs st) \<subseteq> dom f \<and> dom f \<subseteq> dom (fs st')"
        "out = (pre @ gap @ m_text m) @ weave code (?i + ?n) (zip ms (map2 (rewritten h baseDir cacheDir) ms fss))"
      by blast
    have rw: "rewritten h baseDir cacheDir m (fs st) = m_text m"
      using True rewritten_skip by blast
    have "length (fs st # fss) = length (m # ms)" using fss(1) by simp
    moreover have "\<forall>f\<in>set (fs st # fss). dom (fs st) \<subseteq> dom f \<and> dom f \<subseteq> dom (fs st')"
      using fss(2) d0 by simp
    moreover have "out = pre @ weave code pos (zip (m # ms) (map2 (rewritten h baseDir cacheDir) (m # ms) (fs st # fss)))"
      using fss(3) rw by (simp add: gap_def)
    ultimately show ?thesis by blast
  next
    case False
    then have step: "found ?r \<or> finalImportPath ?r \<noteq> ''''" by blast
    note eq = rewriteLoop_step [OF step, of again cacheDir d ms offset newCode]
    from eq Cons.prems(4) obtain st1 f where
      mat: "materialize again h cacheDir d ?r st = Some (st1, Inr f)"
      by (auto split: option.splits sum.splits)
    define rep where "rep = replacementOf f"
    have e1: "evolves st st1" using materialize_evolves [OF ev mat] .
    have d1: "dom (fs st) \<subseteq> dom (fs st1)" using e1 by (simp add: evolves_def)
    have startnn: "int ?i + offset = int (length (pre @ gap))"
      using Cons.prems(3) pos gaplen by simp
    have "take (length (pre @ gap)) ((pre @ gap) @ m_text m @ tail) = pre @ gap"
      by (rule append_eq_conv_conj [THEN iffD1, THEN conjunct1, symmetric]) simp
    then have s1: "js_slice newCode 0 (int ?i + offset) = pre @ gap"
      unfolding startnn nc0 by (simp add: js_slice_0)
    have endnn: "int ?i + offset + int ?n = int (length (pre @ gap @ m_text m))"
      using startnn by simp
    have "drop (length (pre @ gap @ m_text m)) ((pre @ gap @ m_text m) @ tail) = tail"
      by (rule append_eq_conv_conj [THEN iffD1, THEN conjunct2, symmetric]) simp
    then have s2: "js_slice_from newCode (int ?i + offset + int ?n) = tail"
      unfolding endnn nc0 by (simp add: js_slice_from_nonneg)
    from eq mat Cons.prems(4) have
      "rewriteLoop again h baseDir cacheDir d ms (offset + (int (length rep) - int ?n))
         (js_slice newCode 0 (int ?i + offset) @ rep @ js_slice_from newCode (int ?i + offset + int ?n))
         st1 = Some (st', Inr out)"
      by (simp add: rep_def)
    then have run:
      "rewriteLoop again h baseDir cacheDir d ms (offset + (int (length rep) - int ?n))
         ((pre @ gap @ rep) @ drop (?i + ?n) code) st1 = Some (st', Inr out)"
      unfolding s1 s2 by (simp add: tail_def)
    have off: "offset + (int (length rep) - int ?n) = int (length (pre @ gap @ rep)) - int (?i + ?n)"
      using Cons.prems(3) gaplen pos by simp
    from Cons.IH [OF wf' refl off run] obtain fss where
      fss: "length fss = length ms"
        "\<forall>f\<in>set fss. dom (fs st1) \<subseteq> dom f \<and> dom f \<subseteq> dom (fs st')"
        "out = (pre @ gap @ rep) @ weave code (?i + ?n) (zip ms (map2 (rewritten h baseDir cacheDir) ms fss))"
      by blast
    have rw: "rewritten h baseDir cacheDir m (fs st) = rep"
      unfolding rep_def using rewritten_step [OF step mat] .
    have "length (fs st # fss) = length (m # ms)" using fss(1) by simp
    moreover have "\<forall>f\<in>set (fs st # fss). dom (fs st) \<subseteq> dom f \<and> dom f \<subseteq> dom (fs st')"
    proof -
      have "\<forall>f\<in>set fss. dom (fs st) \<subseteq> dom f \<and> dom f \<subseteq> dom (fs st')"
        using fss(2) d1 by (meson subset_trans)
      with d0 show ?thesis by simp
    qed
    moreover have "out = pre @ weave code pos (zip (m # ms) (map2 (rewritten h baseDir cacheDir) (m # ms) (fs st # fss)))"
      using fss(3) rw by (simp add: gap_def)
    ultimately show ?thesis by blast
  qed
qed

lemma rewriteImports_weave:
  assumes "rewriteImports n h st code baseDir cacheDir d = Some (st', Inr out)"
  shows "\<exists>fss. length fss = length (matchAll code) \<and>
               (\<forall>f\<in>set fss. dom (fs st) \<subseteq> dom f \<and> dom f \<subseteq> dom (fs st')) \<and>
               out = weave code 0 (zip (matchAll code) (map2 (rewritten h baseDir cacheDir) (matchAll code) fss))"
proof (cases n)
  case 0
  with assms show ?thesis by simp
next
  case (Suc k)
  with assms have run: "rewriteLoop (\<lambda>st' code' baseDir'. rewriteImports k h st' code' baseDir' cacheDir d)
       h baseDir cacheDir d (matchAll code) 0 code st = Some (st', Inr out)"
    by simp
  have nc: "code = [] @ drop 0 code" by simp
  have off: "(0::int) = int (length ([]::string)) - int 0" by simp
  from rewriteLoop_weave [OF rewriteImports_evolving matchAll_wf nc off run]
  show ?thesis by simp
qed

section \<open>C5: when the default import of the UI runtime is injected\<close>

lemma prependReact_includes:
  "js_includes (prependReact code) ''import React'' \<or> js_includes (prependReact code) ''import * as React''"
proof (cases "js_includes code ''import React'' \<or> js_includes code ''import * as React''")
  case True
  then show ?thesis by (auto simp: prependReact_def)
next
  case False
  have "reactImportLine @ code = [] @ ''import React'' @ ('' from 'react';'' @ [CHR 0x0A] @ code)"
    by (simp add: reactImportLine_def)
  then have "js_includes (reactImportLine @ code) ''import React''"
    unfolding js_includes_iff by blast
  with False show ?thesis by (simp add: prependReact_def)
qed

text \<open>
  C5 (as stated): the import is injected only when the transformed code references the
  runtime without importing it, and code that does not reference the runtime is not given
  the extra import.  The code never looks for a reference: the module
  \<^verbatim>\<open>export const x = 1;\<close> does not mention \<^verbatim>\<open>React\<close> at all and still gets the import line.
\<close>

theorem C5_counterexample:
  "\<not> js_includes ''export const x = 1;'' ''React'' \<and>
   prependReact ''export const x = 1;'' = ''import React from 'react';'' @ [CHR 0x0A] @ ''export const x = 1;''"
  by (simp add: prependReact_def reactImportLine_def)

text \<open>
  C5 (amended): the import line is prepended exactly when the transformed code contains
  neither the text \<^verbatim>\<open>import React\<close> nor the text \<^verbatim>\<open>import * as React\<close>, whether or not the
  code references the runtime; otherwise the code is left as it is.  Afterwards one of the
  two texts is always present.
\<close>

theorem C5_prependReact_criterion:
  "prependReact code =
     (if (\<exists>a b. code = a @ ''import React'' @ b) \<or> (\<exists>a b. code = a @ ''import * as React'' @ b)
      then code else reactImportLine @ code) \<and>
   ((\<exists>a b. prependReact code = a @ ''import React'' @ b) \<or>
    (\<exists>a b. prependReact code = a @ ''import * as React'' @ b))"
  using prependReact_includes [of code]
  unfolding js_includes_iff [symmetric] by (simp add: prependReact_def)

section \<open>The files of the examples\<close>

definition mainSource :: string where
  "mainSource =
     ''// import React: not needed here'' @ [CHR 0x0A] @
     ''import { u } from '' @ [dq] @ ''./util.js'' @ [dq] @ '';'' @ [CHR 0x0A] @
     ''export default u;'' @ [CHR 0x0A]"

text \<open>
  A project in \<^verbatim>\<open>/p\<close> whose sources lie in \<^verbatim>\<open>/p/src\<close>; the cache directory
  \<^verbatim>\<open>/p/.float/.cache\<close> does not exist yet.
\<close>

definition exampleFs :: filesystem where
  "exampleFs = map_of
     [(''/'', Dir 1), (''/p'', Dir 1), (''/p/src'', Dir 1),
      (''/p/src/main.tsx'', File mainSource 10),
      (''/p/src/util.ts'', File ''export const u = 1;'' 5),
      (''/p/src/util.js'', File ''export const u = 1;'' 6)]"

definition exampleHost :: host where
  "exampleHost = posixHost [(''react'', ''/p/node_modules/react/index.js'')] importOk"

text \<open>
  The state in which \<^verbatim>\<open>transformFile\<close> calls the rewriter: the cache directory has been
  made (line 84 of the source).
\<close>

definition readyState :: state where
  "readyState = fst (mkdirSync exampleHost (freshState exampleFs 42) ''/p/.float/.cache'')"

section \<open>C1: the order in which a relative specifier is probed\<close>

definition documentedOrder :: "host \<Rightarrow> path \<Rightarrow> path list" where
  "documentedOrder h p =
     p # map (\<lambda>ext. p @ ext) extensions @ map (\<lambda>ext. path_join h [p, ''index'' @ ext]) extensions"

definition probeOrder :: "host \<Rightarrow> path \<Rightarrow> path list" where
  "probeOrder h p =
     concat (map (\<lambda>ext. [stripJsExt p @ ext, path_join h [p, ''index'' @ ext]]) extensions)"

lemma probe_find:
  "probe h fsys s p exts =
   find (existsSync fsys) (concat (map (\<lambda>ext. [s @ ext, path_join h [p, ''index'' @ ext]]) exts))"
  by (induction exts) auto

lemma relative_not_known:
  assumes "isRelative importPath"
  shows "resolveKnown h fsys baseDir importPath = \<lparr>finalImportPath = '''', found = False, resolvedPath = ''''\<rparr>"
proof -
  from assms obtain r where
    "importPath = ''./'' @ r \<or> importPath = ''../'' @ r \<or> importPath = ''@/'' @ r"
    by (auto simp: isRelative_def js_startsWith_iff)
  then have "\<not> isReact importPath \<and> \<not> isReactDOM importPath \<and> \<not> isReactNative importPath \<and>
             \<not> isFramework importPath \<and> importPath \<noteq> ''@float-v/lite''"
    by (auto simp: isReact_def isReactDOM_def isReactNative_def isFramework_def)
  then show ?thesis by (simp add: resolveKnown_def)
qed

lemma found_stays:
  "found r \<Longrightarrow> autoHeal h baseDir importPath r = r"
  "found r \<Longrightarrow> bareFallback h baseDir importPath r = r"
  by (simp_all add: autoHeal_def bareFallback_def)

text \<open>
  C1 (as stated): the literal path is tried first, then the extensions appended to the
  path, then the same extensions on an index file.  With \<^verbatim>\<open>util.js\<close> and \<^verbatim>\<open>util.ts\<close> side by
  side, the documented order finds the literal path \<^verbatim>\<open>/p/src/util.js\<close> for the specifier
  \<^verbatim>\<open>./util.js\<close>, and the code resolves it to \<^verbatim>\<open>/p/src/util.ts\<close>.
\<close>

theorem C1_counterexample:
  "find (existsSync exampleFs) (documentedOrder exampleHost (resolveBase exampleHost ''/p/src'' ''./util.js''))
     = Some ''/p/src/util.js'' \<and>
   resolvedPath (resolveSpecifier exampleHost exampleFs ''/p/src'' ''./util.js'') = ''/p/src/util.ts''"
  by code_simp

text \<open>
  C1 (amended): for every relative or workspace-alias specifier, the rewriter picks the
  first existing candidate in this order: for each of the extensions \<^verbatim>\<open>.tsx\<close>, \<^verbatim>\<open>.ts\<close>, \<^verbatim>\<open>.jsx\<close>,
  \<^verbatim>\<open>.js\<close>, \<^verbatim>\<open>.mjs\<close> and the empty extension in turn, first the resolved path with a final
  \<^verbatim>\<open>.js\<close> or \<^verbatim>\<open>.mjs\<close> cut off and the extension appended, then the index file with that
  extension inside the resolved path taken as a directory.  When none exists, resolution
  goes on with auto-healing and the fallbacks for bare specifiers.
\<close>

theorem C1_probe_order:
  assumes "isRelative importPath"
  shows "probeOrder h (resolveBase h baseDir importPath) =
           [stripJsExt (resolveBase h baseDir importPath) @ ''.tsx'',
            path_join h [resolveBase h baseDir importPath, ''index.tsx''],
            stripJsExt (resolveBase h baseDir importPath) @ ''.ts'',
            path_join h [resolveBase h baseDir importPath, ''index.ts''],
            stripJsExt (resolveBase h baseDir importPath) @ ''.jsx'',
            path_join h [resolveBase h baseDir importPath, ''index.jsx''],
            stripJsExt (resolveBase h baseDir importPath) @ ''.js'',
            path_join h [resolveBase h baseDir importPath, ''index.js''],
            stripJsExt (resolveBase h baseDir importPath) @ ''.mjs'',
            path_join h [resolveBase h baseDir importPath, ''index.mjs''],
            stripJsExt (resolveBase h baseDir importPath),
            path_join h [resolveBase h baseDir importPath, ''index'']] \<and>
         resolveSpecifier h fsys baseDir importPath =
           (case find (existsSync fsys) (probeOrder h (resolveBase h baseDir importPath)) of
              Some p \<Rightarrow> \<lparr>finalImportPath = '''', found = True, resolvedPath = p\<rparr>
            | None \<Rightarrow>
                bareFallback h baseDir importPath
                  (autoHeal h baseDir importPath
                     \<lparr>finalImportPath = '''', found = False,
                      resolvedPath = resolveBase h baseDir importPath\<rparr>))"
proof -
  have "probe h fsys (stripJsExt (resolveBase h baseDir importPath)) (resolveBase h baseDir importPath) extensions
        = find (existsSync fsys) (probeOrder h (resolveBase h baseDir importPath))"
    by (simp add: probe_find probeOrder_def)
  then have "resolveSpecifier h fsys baseDir importPath =
           (case find (existsSync fsys) (probeOrder h (resolveBase h baseDir importPath)) of
              Some p \<Rightarrow> \<lparr>finalImportPath = '''', found = True, resolvedPath = p\<rparr>
            | None \<Rightarrow>
                bareFallback h baseDir importPath
                  (autoHeal h baseDir importPath
                     \<lparr>finalImportPath = '''', found = False,
                      resolvedPath = resolveBase h baseDir importPath\<rparr>))"
    using assms
    by (simp add: resolveSpecifier_def relative_not_known resolveRelative_def found_stays
        split: option.splits)
  moreover have "probeOrder h (resolveBase h baseDir importPath) =
           [stripJsExt (resolveBase h baseDir importPath) @ ''.tsx'',
            path_join h [resolveBase h baseDir importPath, ''index.tsx''],
            stripJsExt (resolveBase h baseDir importPath) @ ''.ts'',
            path_join h [resolveBase h baseDir importPath, ''index.ts''],
            stripJsExt (resolveBase h baseDir importPath) @ ''.jsx'',
            path_join h [resolveBase h baseDir importPath, ''index.jsx''],
            stripJsExt (resolveBase h baseDir importPath) @ ''.js'',
            path_join h [resolveBase h baseDir importPath, ''index.js''],
            stripJsExt (resolveBase h baseDir importPath) @ ''.mjs'',
            path_join h [resolveBase h baseDir importPath, ''index.mjs''],
            stripJsExt (resolveBase h baseDir importPath),
            path_join h [resolveBase h baseDir importPath, ''index'']]"
    by (simp add: probeOrder_def extensions_def)
  ultimately show ?thesis by blast
qed

text \<open>C1, an instance: \<^verbatim>\<open>./util.js\<close> is relative and resolves to \<^verbatim>\<open>/p/src/util.ts\<close>.\<close>

theorem C1_probe_order_witness:
  "isRelative ''./util.js'' \<and>
   resolveSpecifier exampleHost exampleFs ''/p/src'' ''./util.js'' =
     \<lparr>finalImportPath = '''', found = True, resolvedPath = ''/p/src/util.ts''\<rparr>"
proof -
  have rel: "isRelative ''./util.js''" by code_simp
  have fnd: "find (existsSync exampleFs) (probeOrder exampleHost (resolveBase exampleHost ''/p/src'' ''./util.js''))
             = Some ''/p/src/util.ts''"
    by code_simp
  from C1_probe_order [OF rel, of exampleHost "''/p/src''" exampleFs] fnd rel
  show ?thesis by simp
qed

section \<open>C7: what a failed lock leaves behind\<close>

lemma lockBody_cases:
  "lockBody h st projectRoot =
     (case require_resolve h (path_join h [projectRoot, ''noop.js'']) ''react'' of
        Inl e \<Rightarrow> (st, Inl e)
      | Inr p \<Rightarrow> (case realpathSync h p of Inl e \<Rightarrow> (st, Inl e)
          | Inr rp \<Rightarrow> (case require_resolve h (path_join h [projectRoot, ''noop.js'']) ''react-dom'' of
              Inl e \<Rightarrow> (st\<lparr>lockedReactPath := Some rp\<rparr>, Inl e)
            | Inr q \<Rightarrow> (case realpathSync h q of Inl e \<Rightarrow> (st\<lparr>lockedReactPath := Some rp\<rparr>, Inl e)
                | Inr rq \<Rightarrow> (st\<lparr>lockedReactPath := Some rp, lockedReactDOMPath := Some rq\<rparr>, Inr ())))))"
  by (simp add: lockBody_def Let_def split: sum.splits)

text \<open>
  C7 (as stated): after a failed resolution both locked paths are unset.  With the UI
  runtime installed and the renderer missing, the call returns normally, the UI-runtime
  path is set and only the renderer path is unset.
\<close>

theorem C7_counterexample:
  "require_resolve exampleHost (path_join exampleHost [''/p'', ''noop.js'']) ''react-dom''
     = Inl (HostError ''MODULE_NOT_FOUND'') \<and>
   snd (lockFrameworkDependencies exampleHost (freshState exampleFs 42) ''/p'') = Inr () \<and>
   lockedReactPath (fst (lockFrameworkDependencies exampleHost (freshState exampleFs 42) ''/p''))
     = Some ''/p/node_modules/react/index.js'' \<and>
   lockedReactDOMPath (fst (lockFrameworkDependencies exampleHost (freshState exampleFs 42) ''/p'')) = None"
  by code_simp

text \<open>
  C7 (amended): \<^verbatim>\<open>lockFrameworkDependencies\<close> never throws.  When resolving the UI runtime
  (or its real path) fails, both locked paths keep the values they had.  When the UI
  runtime resolves and the renderer does not, the UI-runtime path is set to the resolved
  real path and the renderer path keeps the value it had.  When both resolve, both are set.
\<close>

theorem C7_lock_failure:
  "snd (lockFrameworkDependencies h st projectRoot) = Inr () \<and>
   fst (lockFrameworkDependencies h st projectRoot) =
     (case require_resolve h (path_join h [projectRoot, ''noop.js'']) ''react'' of
        Inl e \<Rightarrow> st
      | Inr p \<Rightarrow>
          (case realpathSync h p of
             Inl e \<Rightarrow> st
           | Inr rp \<Rightarrow>
               (case require_resolve h (path_join h [projectRoot, ''noop.js'']) ''react-dom'' of
                  Inl e \<Rightarrow> st\<lparr>lockedReactPath := Some rp\<rparr>
                | Inr q \<Rightarrow>
                    (case realpathSync h q of
                       Inl e \<Rightarrow> st\<lparr>lockedReactPath := Some rp\<rparr>
                     | Inr rq \<Rightarrow> st\<lparr>lockedReactPath := Some rp, lockedReactDOMPath := Some rq\<rparr>))))"
  by (simp add: lockFrameworkDependencies_def lockBody_cases split: sum.splits)

section \<open>C10: a failed import leaves the module cache alone\<close>

lemma unlinkQuiet_moduleCache: "moduleCache (unlinkQuiet st p) = moduleCache st"
  by (simp add: unlinkQuiet_def split: option.splits fnode.splits)

lemma transformFile_miss:
  assumes "statMtimeMs (fs st) (if path_isAbsolute h filePath then filePath else path_resolve h [filePath]) = Inr mtime"
      and "\<forall>m. moduleCache st (if path_isAbsolute h filePath then filePath else path_resolve h [filePath]) \<noteq> Some (m, mtime)"
  shows "transformFile n h st filePath opts =
         loadFresh n h st (if path_isAbsolute h filePath then filePath else path_resolve h [filePath]) mtime opts"
proof -
  let ?abs = "if path_isAbsolute h filePath then filePath else path_resolve h [filePath]"
  from assms(1) have ex: "existsSync (fs st) ?abs"
    by (auto simp: statMtimeMs_def existsSync_def split: option.splits)
  show ?thesis
  proof (cases "moduleCache st ?abs")
    case None
    with ex assms(1) show ?thesis by (simp add: transformFile_def Let_def)
  next
    case (Some a)
    obtain m t where a: "a = (m, t)" by (cases a)
    with Some assms(2) have "t \<noteq> mtime" by auto
    with ex assms(1) Some a show ?thesis by (simp add: transformFile_def Let_def)
  qed
qed

text \<open>
  C10: when the entry file is not served from the module cache, its code has been prepared
  and written to the temporary file, and the dynamic import of that file fails with an
  error, \<^verbatim>\<open>transformFile\<close> fails with that error and the module cache is what it was before
  the call: no entry is added or replaced.
\<close>

theorem C10_import_failure:
  assumes "statMtimeMs (fs st) (if path_isAbsolute h filePath then filePath else path_resolve h [filePath]) = Inr mtime"
      and "\<forall>m. moduleCache st (if path_isAbsolute h filePath then filePath else path_resolve h [filePath]) \<noteq> Some (m, mtime)"
      and "prepareCode n h st (if path_isAbsolute h filePath then filePath else path_resolve h [filePath]) opts
             = Some (st3, Inr (tempFile, code))"
      and "writeFileSync h st3 tempFile code = (st4, Inr ())"
      and "dynamic_import h (fs st4) (pathToFileURL h tempFile) = Inl e"
  shows "\<exists>st'. transformFile n h st filePath opts = Some (st', Inl e) \<and>
               moduleCache st' = moduleCache st"
proof -
  have m3: "moduleCache st3 = moduleCache st"
    using prepareCode_evolves [OF assms(3)] by (simp add: evolves_def)
  have m4: "moduleCache st4 = moduleCache st3"
    using writeFileSync_evolves [OF assms(4)] by (simp add: evolves_def)
  show ?thesis
    unfolding transformFile_miss [OF assms(1,2)]
    using assms(3,4,5) m3 m4
    by (simp add: loadFresh_def Let_def unlinkQuiet_moduleCache)
qed

definition failingHost :: host where
  "failingHost = posixHost [] importFails"

text \<open>
  C10, an instance: on a host whose dynamic import always fails, loading
  \<^verbatim>\<open>/p/src/main.tsx\<close> fails with the error of the import and the module cache stays empty.
\<close>

theorem C10_import_failure_witness:
  "\<exists>st'. transformFile 2 failingHost (freshState exampleFs 42) ''/p/src/main.tsx''
           \<lparr>useCache = True, vibeDebug = False\<rparr> = Some (st', Inl (HostError ''ERR_MODULE_NOT_FOUND'')) \<and>
         moduleCache st' = moduleCache (freshState exampleFs 42)"
proof -
  let ?st = "freshState exampleFs 42"
  let ?opts = "\<lparr>useCache = True, vibeDebug = False\<rparr>"
  have ab: "(if path_isAbsolute failingHost ''/p/src/main.tsx'' then ''/p/src/main.tsx''
             else path_resolve failingHost [''/p/src/main.tsx'']) = ''/p/src/main.tsx''"
    by code_simp
  have h1: "statMtimeMs (fs ?st) ''/p/src/main.tsx'' = Inr 10" by code_simp
  have h2: "\<forall>m. moduleCache ?st ''/p/src/main.tsx'' \<noteq> Some (m, 10)" by (simp add: freshState_def)
  have "map_option (\<lambda>(s, r). map_sum id fst r) (prepareCode 2 failingHost ?st ''/p/src/main.tsx'' ?opts)
          = Some (Inr ''/p/.float/.cache/main_42.mjs'')"
    by code_simp
  then obtain st3 b where pc: "prepareCode 2 failingHost ?st ''/p/src/main.tsx'' ?opts = Some (st3, b)"
    and b: "map_sum id fst b = Inr ''/p/.float/.cache/main_42.mjs''"
    by (auto split: prod.splits)
  from b obtain code where "b = Inr (''/p/.float/.cache/main_42.mjs'', code)"
    by (cases b) auto
  with pc have
    h3: "prepareCode 2 failingHost ?st ''/p/src/main.tsx'' ?opts = Some (st3, Inr (''/p/.float/.cache/main_42.mjs'', code))"
    by simp
  have "map_option (\<lambda>(s, r). map_sum id (\<lambda>(f, c). snd (writeFileSync failingHost s f c)) r)
          (prepareCode 2 failingHost ?st ''/p/src/main.tsx'' ?opts) = Some (Inr (Inr ()))"
    by code_simp
  with h3 obtain st4 where h4: "writeFileSync failingHost st3 ''/p/.float/.cache/main_42.mjs'' code = (st4, Inr ())"
    by (cases "writeFileSync failingHost st3 ''/p/.float/.cache/main_42.mjs'' code") auto
  have h5: "dynamic_import failingHost (fs st4) (pathToFileURL failingHost ''/p/.float/.cache/main_42.mjs'')
            = Inl (HostError ''ERR_MODULE_NOT_FOUND'')"
    by (simp add: failingHost_def posixHost_def importFails_def)
  from C10_import_failure [of ?st failingHost "''/p/src/main.tsx''" 10 2 ?opts st3 _ code st4, unfolded ab, OF h1 h2 h3 h4 h5]
  show ?thesis .
qed

section \<open>C4: a second load of an unchanged file is served from the module cache\<close>

lemma loadFresh_caches:
  assumes "loadFresh n h st absolutePath mtime opts = Some (st1, Inr m)"
  shows "moduleCache st1 absolutePath = Some (m, mtime)"
proof -
  from assms obtain st3 tempFile code where
    "prepareCode n h st absolutePath opts = Some (st3, Inr (tempFile, code))"
    by (auto simp: loadFresh_def split: option.splits sum.splits prod.splits)
  with assms obtain st4 where "writeFileSync h st3 tempFile code = (st4, Inr ())"
    by (cases "writeFileSync h st3 tempFile code") (auto simp: loadFresh_def split: sum.splits)
  with assms \<open>prepareCode n h st absolutePath opts = Some (st3, Inr (tempFile, code))\<close>
  show ?thesis
    by (auto simp: loadFresh_def Let_def split: sum.splits)
qed

lemma transformFile_loaded:
  assumes "transformFile n h st filePath opts = Some (st1, Inr m)"
  shows "\<exists>mtime. statMtimeMs (fs st) (if path_isAbsolute h filePath then filePath else path_resolve h [filePath]) = Inr mtime \<and>
           moduleCache st1 (if path_isAbsolute h filePath then filePath else path_resolve h [filePath]) = Some (m, mtime)"
proof -
  let ?abs = "if path_isAbsolute h filePath then filePath else path_resolve h [filePath]"
  from assms have ex: "existsSync (fs st) ?abs"
    by (auto simp: transformFile_def Let_def split: if_splits)
  with assms obtain mtime where mt: "statMtimeMs (fs st) ?abs = Inr mtime"
    by (cases "statMtimeMs (fs st) ?abs") (auto simp: transformFile_def Let_def)
  show ?thesis
  proof (cases "\<exists>m'. moduleCache st ?abs = Some (m', mtime)")
    case True
    then obtain m' where hit: "moduleCache st ?abs = Some (m', mtime)" by blast
    with assms ex mt have "st1 = st \<and> m = m'" by (simp add: transformFile_def Let_def)
    with hit mt show ?thesis by simp
  next
    case False
    then have "transformFile n h st filePath opts = loadFresh n h st ?abs mtime opts"
      using transformFile_miss [OF mt] by simp
    with assms have "moduleCache st1 ?abs = Some (m, mtime)" using loadFresh_caches by simp
    with mt show ?thesis by blast
  qed
qed

text \<open>
  C4: after a successful load of an entry file, a second call for the same path, in any
  state whose module-cache entry for the absolute path is the one the first load left
  and in which the file has the modification time it had at the first load, returns the
  identical module handle and leaves the state as it is: no file is written, no
  transformer call and no import is made.
\<close>

theorem C4_cache_hit:
  assumes "transformFile n h st filePath opts = Some (st1, Inr m)"
      and "moduleCache st2 (if path_isAbsolute h filePath then filePath else path_resolve h [filePath]) =
           moduleCache st1 (if path_isAbsolute h filePath then filePath else path_resolve h [filePath])"
      and "statMtimeMs (fs st2) (if path_isAbsolute h filePath then filePath else path_resolve h [filePath]) =
           statMtimeMs (fs st) (if path_isAbsolute h filePath then filePath else path_resolve h [filePath])"
  shows "transformFile n' h st2 filePath opts' = Some (st2, Inr m)"
proof -
  let ?abs = "if path_isAbsolute h filePath then filePath else path_resolve h [filePath]"
  from transformFile_loaded [OF assms(1)] obtain mtime where
    mt: "statMtimeMs (fs st) ?abs = Inr mtime" and c: "moduleCache st1 ?abs = Some (m, mtime)"
    by blast
  from mt assms(3) have mt2: "statMtimeMs (fs st2) ?abs = Inr mtime" by simp
  then have ex: "existsSync (fs st2) ?abs"
    by (auto simp: statMtimeMs_def existsSync_def split: option.splits)
  from c assms(2) have c2: "moduleCache st2 ?abs = Some (m, mtime)" by simp
  from ex mt2 c2 show ?thesis by (simp add: transformFile_def Let_def)
qed

text \<open>
  C4, an instance: \<^verbatim>\<open>/p/src/main.tsx\<close> is loaded (the transformer is called), and the second
  call returns the same module without changing the state.
\<close>

theorem C4_cache_hit_witness:
  "\<exists>st1 m. transformFile 2 exampleHost (freshState exampleFs 42) ''/p/src/main.tsx''
               \<lparr>useCache = True, vibeDebug = False\<rparr> = Some (st1, Inr m) \<and>
            events st1 \<noteq> [] \<and>
            transformFile 2 exampleHost st1 ''/p/src/main.tsx'' \<lparr>useCache = True, vibeDebug = False\<rparr>
              = Some (st1, Inr m)"
proof -
  let ?st = "freshState exampleFs 42"
  let ?opts = "\<lparr>useCache = True, vibeDebug = False\<rparr>"
  have ab: "(if path_isAbsolute exampleHost ''/p/src/main.tsx'' then ''/p/src/main.tsx''
             else path_resolve exampleHost [''/p/src/main.tsx'']) = ''/p/src/main.tsx''"
    by code_simp
  have "map_option (\<lambda>(s, r). (statMtimeMs (fs s) ''/p/src/main.tsx'', events s \<noteq> [], r))
          (transformFile 2 exampleHost ?st ''/p/src/main.tsx'' ?opts)
        = Some (Inr 10, True, Inr (Module 35))"
    by code_simp
  then obtain st1 where run: "transformFile 2 exampleHost ?st ''/p/src/main.tsx'' ?opts = Some (st1, Inr (Module 35))"
    and mt1: "statMtimeMs (fs st1) ''/p/src/main.tsx'' = Inr 10" and ev: "events st1 \<noteq> []"
    by (auto split: prod.splits)
  have mt0: "statMtimeMs (fs ?st) ''/p/src/main.tsx'' = Inr 10" by code_simp
  have "transformFile 2 exampleHost st1 ''/p/src/main.tsx'' ?opts = Some (st1, Inr (Module 35))"
    by (rule C4_cache_hit [OF run]) (simp_all add: ab mt0 mt1)
  with run ev show ?thesis by blast
qed

section \<open>The replacements of a run\<close>

lemma rewriteImports_reps:
  assumes "rewriteImports n h st code baseDir cacheDir d = Some (st', Inr out)"
  shows "\<exists>fss. length fss = length (matchAll code) \<and>
           out = weave code 0 (zip (matchAll code) (map2 (rewritten h baseDir cacheDir) (matchAll code) fss))"
  using rewriteImports_weave [OF assms] by blast

lemma map2_nth:
  "length ys = length xs \<Longrightarrow> i < length xs \<Longrightarrow> map2 f xs ys ! i = f (xs ! i) (ys ! i)"
  by simp

lemma weave_same:
  "wf_matches code pos ms \<Longrightarrow> weave code pos (zip ms (map m_text ms)) = drop pos code"
proof (induction ms arbitrary: pos)
  case Nil
  then show ?case by simp
next
  case (Cons m ms)
  then have "weave code (m_index m + length (m_text m)) (zip ms (map m_text ms))
             = drop (m_index m + length (m_text m)) code"
    by simp
  moreover have "drop pos code = take (m_index m - pos) (drop pos code) @ m_text m @
                 drop (m_index m + length (m_text m)) code"
    using Cons.prems by (intro split_at_match) simp_all
  ultimately show ?case by simp
qed

section \<open>C3: the cache of transformed dependencies\<close>

lemma regenerate_success:
  assumes "regenerate again h d resolved cachedFile st = Some (st', Inr u)"
  shows "\<exists>depSource depResult st2 depCode.
           readFileSync (fs st) resolved = Inr depSource \<and>
           esbuild_transform h (getLoader (path_extname h resolved)) resolved depSource = Inr depResult \<and>
           again (st\<lparr>events := events st @ [EsbuildTransform resolved]\<rparr>) depResult (path_dirname h resolved)
             = Some (st2, Inr depCode) \<and>
           writeFileSync h st2 cachedFile depCode = (st', Inr ())"
proof -
  have re: "\<And>s e s' v. rethrow h d resolved s e \<noteq> Some (s', Inr v)"
    by (auto simp: rethrow_def split: option.splits)
  from assms re obtain depSource where a: "readFileSync (fs st) resolved = Inr depSource"
    by (cases "readFileSync (fs st) resolved") (auto simp: regenerate_def)
  let ?st1 = "st\<lparr>events := events st @ [EsbuildTransform resolved]\<rparr>"
  from assms re a obtain depResult where
    b: "esbuild_transform h (getLoader (path_extname h resolved)) resolved depSource = Inr depResult"
    by (cases "esbuild_transform h (getLoader (path_extname h resolved)) resolved depSource")
       (auto simp: regenerate_def Let_def)
  from assms re a b obtain st2 y where c: "again ?st1 depResult (path_dirname h resolved) = Some (st2, y)"
    by (cases "again ?st1 depResult (path_dirname h resolved)") (auto simp: regenerate_def Let_def)
  from assms re a b c obtain depCode where y: "y = Inr depCode"
    by (cases y) (auto simp: regenerate_def Let_def)
  obtain st3 z where w: "writeFileSync h st2 cachedFile depCode = (st3, z)"
    by (cases "writeFileSync h st2 cachedFile depCode")
  from assms re a b c y w have "st3 = st' \<and> z = Inr ()"
    by (cases z) (auto simp: regenerate_def Let_def)
  with a b c y w show ?thesis by blast
qed

lemma regenerate_runs:
  assumes "readFileSync (fs st) resolved = Inr depSource"
      and "esbuild_transform h (getLoader (path_extname h resolved)) resolved depSource = Inr depResult"
      and "again (st\<lparr>events := events st @ [EsbuildTransform resolved]\<rparr>) depResult (path_dirname h resolved)
             = Some (st2, Inr depCode)"
      and "writeFileSync h st2 cachedFile depCode = (st3, Inr ())"
  shows "regenerate again h d resolved cachedFile st = Some (st3, Inr ())"
  using assms by (simp add: regenerate_def Let_def)

lemma writeFileSync_writes:
  "writeFileSync h st p text = (st', Inr ()) \<Longrightarrow> fs st' = (fs st)(p \<mapsto> File text (real (now st)))"
  by (auto simp: writeFileSync_def split: option.splits fnode.splits)

text \<open>
  Lines 315 to 319 for one match: the offset and the code after the match has been
  replaced by \<^verbatim>\<open>from '<final>'\<close>.
\<close>

definition replaceMatch :: "rmatch \<Rightarrow> int \<Rightarrow> string \<Rightarrow> string \<Rightarrow> int \<times> string" where
  "replaceMatch m offset newCode final =
     (let replacement = replacementOf final;
          start = int (m_index m) + offset;
          end = start + int (length (m_text m))
      in (offset + (int (length replacement) - int (length (m_text m))),
          js_slice newCode 0 start @ replacement @ js_slice_from newCode end))"

lemma rewriteLoop_turn:
  assumes "resolveSpecifier h (fs st) baseDir (m_spec m) = r" and "found r"
  shows "rewriteLoop again h baseDir cacheDir d (m # ms) offset newCode st =
         (case materialize again h cacheDir d r st of
            None \<Rightarrow> None
          | Some (st', Inl e) \<Rightarrow> Some (st', Inl e)
          | Some (st', Inr final) \<Rightarrow>
              rewriteLoop again h baseDir cacheDir d ms
                (fst (replaceMatch m offset newCode final)) (snd (replaceMatch m offset newCode final)) st')"
  using assms by (simp add: Let_def replaceMatch_def split: option.splits sum.splits prod.splits)

lemma materialize_typed:
  assumes "finalImportPath r = ''''"
      and "path_extname h (resolvedPath r) \<in> set [''.ts'', ''.tsx'', ''.jsx'']"
      and "statMtimeMs (fs st) (resolvedPath r) = Inr ts"
  shows "materialize again h cacheDir d r st =
           (if \<exists>tc. statMtimeMs (fs st) (cachedFileOf h cacheDir (resolvedPath r)) = Inr tc \<and> ts \<le> tc
            then Some (st, Inr (pathToFileURL h (cachedFileOf h cacheDir (resolvedPath r))))
            else (case regenerate again h d (resolvedPath r) (cachedFileOf h cacheDir (resolvedPath r)) st of
                    None \<Rightarrow> None
                  | Some (st', Inl e) \<Rightarrow> Some (st', Inl e)
                  | Some (st', Inr u) \<Rightarrow>
                      Some (st', Inr (pathToFileURL h (cachedFileOf h cacheDir (resolvedPath r))))))"
proof -
  let ?c = "cachedFileOf h cacheDir (resolvedPath r)"
  have need: "needsRegeneration (fs st) (resolvedPath r) ?c =
              Inr (\<not> (\<exists>tc. statMtimeMs (fs st) ?c = Inr tc \<and> ts \<le> tc))"
    using assms(3)
    by (auto simp: needsRegeneration_def existsSync_def statMtimeMs_def split: option.splits fnode.splits)
  show ?thesis
  proof (cases "\<exists>tc. statMtimeMs (fs st) ?c = Inr tc \<and> ts \<le> tc")
    case True
    then have "needsRegeneration (fs st) (resolvedPath r) ?c = Inr False" using need by simp
    with assms(1,2) show ?thesis by (subst if_P [OF True]) (simp add: materialize_def)
  next
    case False
    then have "needsRegeneration (fs st) (resolvedPath r) ?c = Inr True" using need by simp
    with assms(1,2) show ?thesis by (subst if_not_P [OF False]) (simp add: materialize_def)
  qed
qed

text \<open>
  A dependency whose source the transformer rejects, with an older cache file in place,
  on a host whose transformer rejects that source.
\<close>

definition brokenFs :: filesystem where
  "brokenFs = (fs readyState)
     (''/p/src/util.ts'' \<mapsto> File ''export const u = ;'' 5,
      ''/p/.float/.cache/dep_f1d154a62a87aff1.mjs'' \<mapsto> File ''export const u = 0;'' 3)"

definition strictHost :: host where
  "strictHost = exampleHost
     \<lparr>esbuild_transform := (\<lambda>l file source.
        if source = ''export const u = ;'' then Inl (HostError ''Transform failed with 1 error'')
        else Inr source)\<rparr>"

text \<open>
  C3 (as stated): when the cache file is not at least as new as the source, the
  dependency is transformed again and the cache file is overwritten.  Here the cache file
  (time 3) is older than the source (time 5), the transformer rejects the source, the
  rewrite fails with the transformer's error, and the cache file still holds the old text.
\<close>

theorem C3_counterexample:
  "statMtimeMs brokenFs ''/p/src/util.ts'' = Inr 5 \<and>
   statMtimeMs brokenFs ''/p/.float/.cache/dep_f1d154a62a87aff1.mjs'' = Inr 3 \<and>
   map_option (\<lambda>(s, r). (r, fs s ''/p/.float/.cache/dep_f1d154a62a87aff1.mjs''))
     (rewriteImports 2 strictHost (freshState brokenFs 42) ''import { u } from './util';''
        ''/p/src'' ''/p/.float/.cache'' False)
   = Some (Inl (HostError ''Transform failed with 1 error''), Some (File ''export const u = 0;'' 3))"
  by code_simp

text \<open>
  C3 (amended): let the loop of \<^verbatim>\<open>rewriteImports\<close> stand at a from-clause whose specifier
  resolves to an existing \<^verbatim>\<open>.ts\<close>, \<^verbatim>\<open>.tsx\<close> or \<^verbatim>\<open>.jsx\<close> source file.  The cache file of the
  dependency is \<^verbatim>\<open>dep_\<close>, the first sixteen digits of the digest of the resolved path, and
  \<^verbatim>\<open>.mjs\<close>, in the cache directory: the content of the dependency plays no part in the name.

  If the cache file exists and its modification time is greater than or equal to that of
  the source, the cache file is reused: the clause is replaced by the URL of the cache
  file and the loop goes on in the same state (nothing is read, transformed or written).

  Otherwise: if the source can be read, the transformer accepts it, the rewrite of the
  transformed code returns code and the cache file can be written, then the cache file
  holds that rewritten code, with the time of the write, the clause is replaced by the URL
  of the cache file and the loop goes on; and the loop returns code only if all four
  steps went through.
\<close>

theorem C3_dependency_cache:
  assumes "resolveSpecifier h (fs st) baseDir (m_spec m) = r"
      and "found r"
      and "finalImportPath r = ''''"
      and "path_extname h (resolvedPath r) \<in> set [''.ts'', ''.tsx'', ''.jsx'']"
      and "statMtimeMs (fs st) (resolvedPath r) = Inr ts"
  shows "cachedFileOf h cacheDir (resolvedPath r) =
           path_join h [cacheDir, ''dep_'' @ take 16 (sha256_hex h (resolvedPath r)) @ ''.mjs''] \<and>
         ((\<exists>tc. statMtimeMs (fs st) (cachedFileOf h cacheDir (resolvedPath r)) = Inr tc \<and> ts \<le> tc) \<longrightarrow>
            rewriteLoop (\<lambda>st' code' baseDir'. rewriteImports n h st' code' baseDir' cacheDir d)
              h baseDir cacheDir d (m # ms) offset newCode st =
            rewriteLoop (\<lambda>st' code' baseDir'. rewriteImports n h st' code' baseDir' cacheDir d)
              h baseDir cacheDir d ms
              (fst (replaceMatch m offset newCode (pathToFileURL h (cachedFileOf h cacheDir (resolvedPath r)))))
              (snd (replaceMatch m offset newCode (pathToFileURL h (cachedFileOf h cacheDir (resolvedPath r)))))
              st) \<and>
         (\<not> (\<exists>tc. statMtimeMs (fs st) (cachedFileOf h cacheDir (resolvedPath r)) = Inr tc \<and> ts \<le> tc) \<longrightarrow>
            (\<forall>depSource depResult st2 depCode st3.
               readFileSync (fs st) (resolvedPath r) = Inr depSource \<and>
               esbuild_transform h (getLoader (path_extname h (resolvedPath r))) (resolvedPath r) depSource
                 = Inr depResult \<and>
               rewriteImports n h (st\<lparr>events := events st @ [EsbuildTransform (resolvedPath r)]\<rparr>) depResult
                 (path_dirname h (resolvedPath r)) cacheDir d = Some (st2, Inr depCode) \<and>
               writeFileSync h st2 (cachedFileOf h cacheDir (resolvedPath r)) depCode = (st3, Inr ()) \<longrightarrow>
               fs st3 = (fs st2)(cachedFileOf h cacheDir (resolvedPath r) \<mapsto> File depCode (real (now st2))) \<and>
               rewriteLoop (\<lambda>st' code' baseDir'. rewriteImports n h st' code' baseDir' cacheDir d)
                 h baseDir cacheDir d (m # ms) offset newCode st =
               rewriteLoop (\<lambda>st' code' baseDir'. rewriteImports n h st' code' baseDir' cacheDir d)
                 h baseDir cacheDir d ms
                 (fst (replaceMatch m offset newCode (pathToFileURL h (cachedFileOf h cacheDir (resolvedPath r)))))
                 (snd (replaceMatch m offset newCode (pathToFileURL h (cachedFileOf h cacheDir (resolvedPath r)))))
                 st3) \<and>
            (\<forall>st' out.
               rewriteLoop (\<lambda>st' code' baseDir'. rewriteImports n h st' code' baseDir' cacheDir d)
                 h baseDir cacheDir d (m # ms) offset newCode st = Some (st', Inr out) \<longrightarrow>
               (\<exists>depSource depResult st2 depCode st3.
                  readFileSync (fs st) (resolvedPath r) = Inr depSource \<and>
                  esbuild_transform h (getLoader (path_extname h (resolvedPath r))) (resolvedPath r) depSource
                    = Inr depResult \<and>
                  rewriteImports n h (st\<lparr>events := events st @ [EsbuildTransform (resolvedPath r)]\<rparr>) depResult
                    (path_dirname h (resolvedPath r)) cacheDir d = Some (st2, Inr depCode) \<and>
                  writeFileSync h st2 (cachedFileOf h cacheDir (resolvedPath r)) depCode = (st3, Inr ()))))"
proof -
  let ?again = "\<lambda>st' code' baseDir'. rewriteImports n h st' code' baseDir' cacheDir d"
  let ?c = "cachedFileOf h cacheDir (resolvedPath r)"
  let ?fresh = "\<exists>tc. statMtimeMs (fs st) ?c = Inr tc \<and> ts \<le> tc"
  let ?turn = "rewriteLoop ?again h baseDir cacheDir d (m # ms) offset newCode st"
  let ?next = "rewriteLoop ?again h baseDir cacheDir d ms
                 (fst (replaceMatch m offset newCode (pathToFileURL h ?c)))
                 (snd (replaceMatch m offset newCode (pathToFileURL h ?c)))"
  have key: "?c = path_join h [cacheDir, ''dep_'' @ take 16 (sha256_hex h (resolvedPath r)) @ ''.mjs'']"
    by (simp add: cachedFileOf_def)
  note turn = rewriteLoop_turn [OF assms(1,2), of ?again cacheDir d ms offset newCode]
  note mat = materialize_typed [OF assms(3,4,5), of ?again cacheDir d]
  have reuse: "?fresh \<longrightarrow> ?turn = ?next st"
  proof
    assume f: ?fresh
    have "materialize ?again h cacheDir d r st = Some (st, Inr (pathToFileURL h ?c))"
      unfolding mat by (subst if_P [OF f]) simp
    then show "?turn = ?next st" unfolding turn by simp
  qed
  have regen: "\<not> ?fresh \<longrightarrow>
            (\<forall>depSource depResult st2 depCode st3.
               readFileSync (fs st) (resolvedPath r) = Inr depSource \<and>
               esbuild_transform h (getLoader (path_extname h (resolvedPath r))) (resolvedPath r) depSource
                 = Inr depResult \<and>
               rewriteImports n h (st\<lparr>events := events st @ [EsbuildTransform (resolvedPath r)]\<rparr>) depResult
                 (path_dirname h (resolvedPath r)) cacheDir d = Some (st2, Inr depCode) \<and>
               writeFileSync h st2 ?c depCode = (st3, Inr ()) \<longrightarrow>
               fs st3 = (fs st2)(?c \<mapsto> File depCode (real (now st2))) \<and> ?turn = ?next st3)"
  proof (intro impI allI)
    fix depSource depResult st2 depCode st3
    assume nf: "\<not> ?fresh"
    assume steps: "readFileSync (fs st) (resolvedPath r) = Inr depSource \<and>
               esbuild_transform h (getLoader (path_extname h (resolvedPath r))) (resolvedPath r) depSource
                 = Inr depResult \<and>
               rewriteImports n h (st\<lparr>events := events st @ [EsbuildTransform (resolvedPath r)]\<rparr>) depResult
                 (path_dirname h (resolvedPath r)) cacheDir d = Some (st2, Inr depCode) \<and>
               writeFileSync h st2 ?c depCode = (st3, Inr ())"
    then have s1: "readFileSync (fs st) (resolvedPath r) = Inr depSource"
      and s2: "esbuild_transform h (getLoader (path_extname h (resolvedPath r))) (resolvedPath r) depSource
                 = Inr depResult"
      and s3: "?again (st\<lparr>events := events st @ [EsbuildTransform (resolvedPath r)]\<rparr>) depResult
                 (path_dirname h (resolvedPath r)) = Some (st2, Inr depCode)"
      and s4: "writeFileSync h st2 ?c depCode = (st3, Inr ())"
      by simp_all
    have "regenerate ?again h d (resolvedPath r) ?c st = Some (st3, Inr ())"
      using regenerate_runs [of st "resolvedPath r" depSource h depResult ?again st2 depCode ?c st3 d] s1 s2 s3 s4
      by simp
    then have "materialize ?again h cacheDir d r st = Some (st3, Inr (pathToFileURL h ?c))"
      unfolding mat by (subst if_not_P [OF nf]) simp
    then have "?turn = ?next st3" unfolding turn by simp
    moreover from steps have "fs st3 = (fs st2)(?c \<mapsto> File depCode (real (now st2)))"
      using writeFileSync_writes by blast
    ultimately show "fs st3 = (fs st2)(?c \<mapsto> File depCode (real (now st2))) \<and> ?turn = ?next st3"
      by simp
  qed
  have only: "\<not> ?fresh \<longrightarrow>
            (\<forall>st' out. ?turn = Some (st', Inr out) \<longrightarrow>
               (\<exists>depSource depResult st2 depCode st3.
                  readFileSync (fs st) (resolvedPath r) = Inr depSource \<and>
                  esbuild_transform h (getLoader (path_extname h (resolvedPath r))) (resolvedPath r) depSource
                    = Inr depResult \<and>
                  rewriteImports n h (st\<lparr>events := events st @ [EsbuildTransform (resolvedPath r)]\<rparr>) depResult
                    (path_dirname h (resolvedPath r)) cacheDir d = Some (st2, Inr depCode) \<and>
                  writeFileSync h st2 ?c depCode = (st3, Inr ())))"
  proof (intro impI allI)
    fix st' out
    assume nf: "\<not> ?fresh" and run: "?turn = Some (st', Inr out)"
    have m: "materialize ?again h cacheDir d r st =
             (case regenerate ?again h d (resolvedPath r) ?c st of
                None \<Rightarrow> None
              | Some (st', Inl e) \<Rightarrow> Some (st', Inl e)
              | Some (st', Inr u) \<Rightarrow> Some (st', Inr (pathToFileURL h ?c)))"
      unfolding mat by (subst if_not_P [OF nf]) simp
    from run obtain s3 u where "regenerate ?again h d (resolvedPath r) ?c st = Some (s3, Inr u)"
      unfolding turn m by (auto split: option.splits sum.splits prod.splits)
    from regenerate_success [OF this]
    show "\<exists>depSource depResult st2 depCode st3.
                  readFileSync (fs st) (resolvedPath r) = Inr depSource \<and>
                  esbuild_transform h (getLoader (path_extname h (resolvedPath r))) (resolvedPath r) depSource
                    = Inr depResult \<and>
                  rewriteImports n h (st\<lparr>events := events st @ [EsbuildTransform (resolvedPath r)]\<rparr>) depResult
                    (path_dirname h (resolvedPath r)) cacheDir d = Some (st2, Inr depCode) \<and>
                  writeFileSync h st2 ?c depCode = (st3, Inr ())"
      by blast
  qed
  from key reuse regen only show ?thesis by blast
qed

text \<open>
  A dependency that has a dependency of its own: \<^verbatim>\<open>/p/src/lib.ts\<close> imports
  \<^verbatim>\<open>/p/src/konst.ts\<close>.
\<close>

definition nestedFs :: filesystem where
  "nestedFs = (fs readyState)
     (''/p/src/lib.ts'' \<mapsto> File ''import { k } from './konst'; export const u = k;'' 5,
      ''/p/src/konst.ts'' \<mapsto> File ''export const k = 1;'' 4)"

text \<open>
  C3, an instance: with no cache file in place, the rewrite of \<^verbatim>\<open>import { u } from './lib';\<close>
  transforms both dependencies and writes both cache files, the one of \<^verbatim>\<open>lib.ts\<close> with
  its own import rewritten; a second rewrite in the state the first one left finds the
  cache file of \<^verbatim>\<open>lib.ts\<close> (time 42) newer than the source (time 5), returns the same code
  and leaves the state as it is.
\<close>

theorem C3_dependency_cache_witness:
  "\<exists>st1. rewriteImports 3 exampleHost (freshState nestedFs 42) ''import { u } from './lib';''
            ''/p/src'' ''/p/.float/.cache'' False
          = Some (st1, Inr ''import { u } from 'file:///p/.float/.cache/dep_ec25731f2d0d914d.mjs';'') \<and>
         fs st1 ''/p/.float/.cache/dep_ec25731f2d0d914d.mjs''
          = Some (File ''import { k } from 'file:///p/.float/.cache/dep_a3d8631266da2359.mjs'; export const u = k;'' 42) \<and>
         fs st1 ''/p/.float/.cache/dep_a3d8631266da2359.mjs'' = Some (File ''export const k = 1;'' 42) \<and>
         events st1 = [EsbuildTransform ''/p/src/lib.ts'', EsbuildTransform ''/p/src/konst.ts''] \<and>
         rewriteImports 3 exampleHost st1 ''import { u } from './lib';'' ''/p/src'' ''/p/.float/.cache'' False
          = Some (st1, Inr ''import { u } from 'file:///p/.float/.cache/dep_ec25731f2d0d914d.mjs';'')"
proof -
  let ?code = "''import { u } from './lib';''"
  let ?out = "''import { u } from 'file:///p/.float/.cache/dep_ec25731f2d0d914d.mjs';''"
  let ?lib = "''/p/.float/.cache/dep_ec25731f2d0d914d.mjs''"
  let ?konst = "''/p/.float/.cache/dep_a3d8631266da2359.mjs''"
  let ?r = "\<lparr>finalImportPath = '''', found = True, resolvedPath = ''/p/src/lib.ts''\<rparr>"
  let ?again = "\<lambda>st' code' baseDir'. rewriteImports 2 exampleHost st' code' baseDir' ''/p/.float/.cache'' False"
  let ?m = "hd (matchAll ?code)"
  have "map_option (\<lambda>(s, r). (r, fs s ?lib, fs s ?konst, events s,
                               resolveSpecifier exampleHost (fs s) ''/p/src'' ''./lib'',
                               statMtimeMs (fs s) ''/p/src/lib.ts''))
          (rewriteImports 3 exampleHost (freshState nestedFs 42) ?code ''/p/src'' ''/p/.float/.cache'' False)
        = Some (Inr ?out,
                Some (File ''import { k } from 'file:///p/.float/.cache/dep_a3d8631266da2359.mjs'; export const u = k;'' 42),
                Some (File ''export const k = 1;'' 42),
                [EsbuildTransform ''/p/src/lib.ts'', EsbuildTransform ''/p/src/konst.ts''],
                ?r, Inr 5)"
    by code_simp
  then obtain st1 where
    cold: "rewriteImports 3 exampleHost (freshState nestedFs 42) ?code ''/p/src'' ''/p/.float/.cache'' False
           = Some (st1, Inr ?out)"
    and libc: "fs st1 ?lib = Some (File ''import { k } from 'file:///p/.float/.cache/dep_a3d8631266da2359.mjs'; export const u = k;'' 42)"
    and konstc: "fs st1 ?konst = Some (File ''export const k = 1;'' 42)"
    and ev: "events st1 = [EsbuildTransform ''/p/src/lib.ts'', EsbuildTransform ''/p/src/konst.ts'']"
    and res: "resolveSpecifier exampleHost (fs st1) ''/p/src'' ''./lib'' = ?r"
    and mt: "statMtimeMs (fs st1) ''/p/src/lib.ts'' = Inr 5"
    by (auto split: prod.splits)
  have len: "length (matchAll ?code) = 1" by code_simp
  then have ms: "matchAll ?code = [?m]" by (cases "matchAll ?code") simp_all
  have spec: "m_spec ?m = ''./lib''" by code_simp
  have h1: "resolveSpecifier exampleHost (fs st1) ''/p/src'' (m_spec ?m) = ?r" using res spec by simp
  have h2: "found ?r" by simp
  have h3: "finalImportPath ?r = ''''" by simp
  have h4: "path_extname exampleHost (resolvedPath ?r) \<in> set [''.ts'', ''.tsx'', ''.jsx'']" by code_simp
  have h5: "statMtimeMs (fs st1) (resolvedPath ?r) = Inr 5" using mt by simp
  have c: "cachedFileOf exampleHost ''/p/.float/.cache'' (resolvedPath ?r) = ?lib" by code_simp
  have fresh: "\<exists>tc. statMtimeMs (fs st1) ?lib = Inr tc \<and> (5::real) \<le> tc"
    using libc by (simp add: statMtimeMs_def)
  have rep: "snd (replaceMatch ?m 0 ?code (pathToFileURL exampleHost ?lib)) = ?out" by code_simp
  from C3_dependency_cache [OF h1 h2 h3 h4 h5, of "''/p/.float/.cache''" 2 False "[]" 0 ?code, unfolded c] fresh
  have "rewriteLoop ?again exampleHost ''/p/src'' ''/p/.float/.cache'' False [?m] 0 ?code st1
        = rewriteLoop ?again exampleHost ''/p/src'' ''/p/.float/.cache'' False []
            (fst (replaceMatch ?m 0 ?code (pathToFileURL exampleHost ?lib)))
            (snd (replaceMatch ?m 0 ?code (pathToFileURL exampleHost ?lib))) st1"
    by blast
  also have "\<dots> = Some (st1, Inr ?out)" unfolding rep by simp
  finally have loop: "rewriteLoop ?again exampleHost ''/p/src'' ''/p/.float/.cache'' False [?m] 0 ?code st1
                      = Some (st1, Inr ?out)" .
  have "rewriteImports 3 exampleHost st1 ?code ''/p/src'' ''/p/.float/.cache'' False
        = rewriteLoop ?again exampleHost ''/p/src'' ''/p/.float/.cache'' False (matchAll ?code) 0 ?code st1"
    by (simp add: numeral_3_eq_3 numeral_2_eq_2)
  also have "\<dots> = Some (st1, Inr ?out)" using loop ms by simp
  finally have warm: "rewriteImports 3 exampleHost st1 ?code ''/p/src'' ''/p/.float/.cache'' False
                      = Some (st1, Inr ?out)" .
  from cold libc konstc ev warm show ?thesis by blast
qed

section \<open>C2: the shim of the UI runtime\<close>

subsection \<open>The shim, read as a program\<close>

text \<open>
  The statements the shim text is made of (lines 164 to 181 of the source): the
  definition of \<^verbatim>\<open>getReact\<close>, the default export, the exports that forward a call, and the
  export that reads a member of the slot.
\<close>

datatype shimStmt =
    DefGetReact
  | ExportDefaultSlot
  | ExportForward string
  | ExportSlotMember string

definition shimMessage :: string where
  "shimMessage = ''[Shim] __FLOAT_REACT__ is missing!''"

fun renderStmt :: "shimStmt \<Rightarrow> string" where
  "renderStmt DefGetReact =
     ''const getReact = () => {'' @ [CHR 0x0A] @
     ''        const r = globalThis.__FLOAT_REACT__;'' @ [CHR 0x0A] @
     ''        if (!r) console.error('' @ [sq] @ shimMessage @ [sq] @ '');'' @ [CHR 0x0A] @
     ''        return r;'' @ [CHR 0x0A] @
     ''      };''"
| "renderStmt ExportDefaultSlot = ''export default globalThis.__FLOAT_REACT__; ''"
| "renderStmt (ExportForward name) =
     ''export const '' @ name @ '' = (...args) => getReact()?.'' @ name @ ''(...args); ''"
| "renderStmt (ExportSlotMember name) =
     ''export const '' @ name @ '' = globalThis.__FLOAT_REACT__?.'' @ name @ '';''"

definition renderShim :: "shimStmt list \<Rightarrow> string" where
  "renderShim prog =
     [CHR 0x0A] @ concat (map (\<lambda>s. ''      '' @ renderStmt s @ [CHR 0x0A]) prog) @ ''      ''"

definition reactShim :: "shimStmt list" where
  "reactShim =
     [DefGetReact,
      ExportDefaultSlot,
      ExportForward ''useState'',
      ExportForward ''useMemo'',
      ExportForward ''useCallback'',
      ExportForward ''useEffect'',
      ExportForward ''useContext'',
      ExportForward ''useReducer'',
      ExportForward ''useRef'',
      ExportForward ''useId'',
      ExportForward ''useLayoutEffect'',
      ExportForward ''createContext'',
      ExportForward ''createElement'',
      ExportSlotMember ''Fragment'']"

subsection \<open>What the statements do\<close>

text \<open>
  The slot \<^verbatim>\<open>globalThis.__FLOAT_REACT__\<close> holds a runtime instance or nothing; the console is
  the list of the messages logged so far.

  \<^verbatim>\<open>const r = globalThis.__FLOAT_REACT__; if (!r) console.error(...); return r;\<close>
\<close>

definition getReact :: "'r option \<Rightarrow> string list \<Rightarrow> 'r option \<times> string list" where
  "getReact slot console =
     (case slot of
        None \<Rightarrow> (None, console @ [shimMessage])
      | Some r \<Rightarrow> (Some r, console))"

text \<open>
  What a module that imports the shim gets under a name: a value fixed when the shim was
  loaded (\<^verbatim>\<open>undefined\<close>, the runtime instance itself, or a member of it), or the arrow
  function that forwards to the member of that name.
\<close>

datatype ('r, 'v) binding =
    Undefined
  | Instance 'r
  | Member 'v
  | Forwarder string

text \<open>
  Loading the shim evaluates the right-hand sides of the exports once, with the slot as
  it is then; \<^verbatim>\<open>member r name\<close> is \<^verbatim>\<open>r.name\<close>, \<^verbatim>\<open>None\<close> when the instance has no such
  member.  \<^verbatim>\<open>getReact\<close> is only defined here, not called: nothing is logged.
\<close>

fun loadStmt :: "('r \<Rightarrow> string \<Rightarrow> 'v option) \<Rightarrow> 'r option \<Rightarrow> shimStmt \<Rightarrow> (string \<times> ('r, 'v) binding) list" where
  "loadStmt member slot DefGetReact = []"
| "loadStmt member slot ExportDefaultSlot =
     [(''default'', case slot of None \<Rightarrow> Undefined | Some r \<Rightarrow> Instance r)]"
| "loadStmt member slot (ExportForward name) = [(name, Forwarder name)]"
| "loadStmt member slot (ExportSlotMember name) =
     [(name, case slot of
               None \<Rightarrow> Undefined
             | Some r \<Rightarrow> (case member r name of None \<Rightarrow> Undefined | Some v \<Rightarrow> Member v))]"

definition loadShim ::
  "('r \<Rightarrow> string \<Rightarrow> 'v option) \<Rightarrow> 'r option \<Rightarrow> string list \<Rightarrow> shimStmt list
     \<Rightarrow> (string \<times> ('r, 'v) binding) list \<times> string list" where
  "loadShim member slot console prog = (concat (map (loadStmt member slot) prog), console)"

text \<open>
  A call of \<^verbatim>\<open>(...args) => getReact()?.name(...args)\<close>, with the slot as it is at the time
  of the call: \<^verbatim>\<open>invoke r name args\<close> is \<^verbatim>\<open>r.name(...args)\<close>, an error when that throws (also
  when \<^verbatim>\<open>r.name\<close> is not a function); the optional chaining gives \<^verbatim>\<open>undefined\<close>, here \<^verbatim>\<open>None\<close>,
  when \<^verbatim>\<open>getReact()\<close> returned nothing.
\<close>

definition callForwarder ::
  "('r \<Rightarrow> string \<Rightarrow> 'a \<Rightarrow> error + 'w) \<Rightarrow> string \<Rightarrow> 'r option \<Rightarrow> string list \<Rightarrow> 'a
     \<Rightarrow> (error + 'w option) \<times> string list" where
  "callForwarder invoke name slot console args =
     (case getReact slot console of
        (None, console') \<Rightarrow> (Inr None, console')
      | (Some r, console') \<Rightarrow> (map_sum id Some (invoke r name args), console'))"

subsection \<open>The claim\<close>

lemma reactGlue_program: "reactGlue = renderShim reactShim"
  by (simp add: reactGlue_def renderShim_def reactShim_def shimMessage_def sq_def)

lemma dataUrl_not_empty: "dataUrl h g \<noteq> ''''"
  by (simp add: dataUrl_def)

lemma resolveSpecifier_react:
  assumes "isReact importPath"
  shows "resolveSpecifier h fsys baseDir importPath =
         \<lparr>finalImportPath = dataUrl h reactGlue, found = True, resolvedPath = ''''\<rparr>"
  using assms
  by (simp add: resolveSpecifier_def resolveKnown_def resolveRelative_def found_stays)

lemma rewritten_react:
  assumes "isReact (m_spec m)"
  shows "rewritten h baseDir cacheDir m fsys = replacementOf (dataUrl h reactGlue)"
  using assms
  by (simp add: rewritten_def finalPath_def resolveSpecifier_react dataUrl_not_empty)

text \<open>
  A module with a template literal that ends in \<^verbatim>\<open>from "\<close>, followed by an import of the UI
  runtime, as the transformer prints it.
\<close>

definition swallowCode :: string where
  "swallowCode =
     ''const s = '' @ [CHR 0x60] @ ''from '' @ [dq] @ [CHR 0x60] @ '';'' @ [CHR 0x0A] @
     ''import React from '' @ [dq] @ ''react'' @ [dq] @ '';''"

text \<open>
  C2 (as stated): the returned code holds the specifier of the UI runtime in no
  from-clause, and every export of the shim logs an error when the slot is missing.
  In \<^verbatim>\<open>swallowCode\<close> the scanner's only match starts inside the template literal and runs up
  to the quote that opens \<^verbatim>\<open>"react"\<close>; its specifier resolves to nothing, so the code comes
  back as it was, with \<^verbatim>\<open>from "react"\<close> in it.  And the default export of the shim, loaded
  with the slot missing, is \<^verbatim>\<open>undefined\<close> with nothing logged.
\<close>

theorem C2_counterexample:
  "map m_spec (matchAll swallowCode)
     = [[CHR 0x60] @ '';'' @ [CHR 0x0A] @ ''import React from '']  \<and>
   map_option snd (rewriteImports 1 exampleHost readyState swallowCode ''/p/src'' ''/p/.float/.cache'' False)
     = Some (Inr swallowCode) \<and>
   (\<exists>a b. swallowCode = a @ ''from '' @ [dq] @ ''react'' @ [dq] @ b) \<and>
   map_of (fst (loadShim (\<lambda>(r :: nat) name. (None :: nat option)) None [] reactShim)) ''default'' = Some Undefined \<and>
   snd (loadShim (\<lambda>(r :: nat) name. (None :: nat option)) None [] reactShim) = []"
proof -
  have a: "map m_spec (matchAll swallowCode)
     = [[CHR 0x60] @ '';'' @ [CHR 0x0A] @ ''import React from '']"
    by code_simp
  have b: "map_option snd (rewriteImports 1 exampleHost readyState swallowCode ''/p/src'' ''/p/.float/.cache'' False)
     = Some (Inr swallowCode)"
    by code_simp
  have "swallowCode = (''const s = '' @ [CHR 0x60] @ ''from '' @ [dq] @ [CHR 0x60] @ '';'' @ [CHR 0x0A] @
     ''import React '') @ ''from '' @ [dq] @ ''react'' @ [dq] @ '';''"
    by (simp add: swallowCode_def)
  then have c: "\<exists>a b. swallowCode = a @ ''from '' @ [dq] @ ''react'' @ [dq] @ b" by blast
  have d: "map_of (fst (loadShim (\<lambda>(r :: nat) name. (None :: nat option)) None [] reactShim)) ''default'' = Some Undefined"
    by (simp add: loadShim_def reactShim_def)
  have e: "snd (loadShim (\<lambda>(r :: nat) name. (None :: nat option)) None [] reactShim) = []"
    by (simp add: loadShim_def)
  from a b c d e show ?thesis by blast
qed

text \<open>
  C2 (amended): whenever \<^verbatim>\<open>rewriteImports\<close> returns code, every from-clause that the scanner
  matched with a specifier equal to \<^verbatim>\<open>react\<close> or starting with \<^verbatim>\<open>react/\<close> stands replaced, at
  its place, by \<^verbatim>\<open>from '<data URL>'\<close>, where the data URL is \<^verbatim>\<open>data:text/javascript;base64,\<close>
  followed by the base64 text of the shim; the data URL is not a specifier of the UI
  runtime.  The shim text is the program \<^verbatim>\<open>reactShim\<close>: the eleven exports \<^verbatim>\<open>useState\<close>,
  \<^verbatim>\<open>useMemo\<close>, \<^verbatim>\<open>useCallback\<close>, \<^verbatim>\<open>useEffect\<close>, \<^verbatim>\<open>useContext\<close>, \<^verbatim>\<open>useReducer\<close>, \<^verbatim>\<open>useRef\<close>, \<^verbatim>\<open>useId\<close>,
  \<^verbatim>\<open>useLayoutEffect\<close>, \<^verbatim>\<open>createContext\<close> and \<^verbatim>\<open>createElement\<close> are functions that read the slot
  at every call: with the slot missing the call logs one error and returns \<^verbatim>\<open>undefined\<close>
  without throwing, otherwise it forwards to the member of that name of the instance in
  the slot and logs nothing.  The default export and \<^verbatim>\<open>Fragment\<close> are read from the slot
  once, when the shim is loaded, and nothing is logged then: they are \<^verbatim>\<open>undefined\<close> when
  the slot is missing at that time.
\<close>

theorem C2_react_shim:
  assumes "rewriteImports n h st code baseDir cacheDir d = Some (st', Inr out)"
  shows "(\<exists>reps. length reps = length (matchAll code) \<and>
            out = weave code 0 (zip (matchAll code) reps) \<and>
            (\<forall>i<length reps. isReact (m_spec (matchAll code ! i)) \<longrightarrow>
               reps ! i = ''from '' @ [sq] @ ''data:text/javascript;base64,'' @ base64 h reactGlue @ [sq])) \<and>
         \<not> isReact (''data:text/javascript;base64,'' @ base64 h reactGlue) \<and>
         reactGlue = renderShim reactShim \<and>
         [name. ExportForward name \<leftarrow> reactShim] =
           [''useState'', ''useMemo'', ''useCallback'', ''useEffect'', ''useContext'', ''useReducer'',
            ''useRef'', ''useId'', ''useLayoutEffect'', ''createContext'', ''createElement''] \<and>
         (\<forall>name. ExportForward name \<in> set reactShim \<longrightarrow>
            callForwarder invoke name None console args = (Inr None, console @ [shimMessage]) \<and>
            callForwarder invoke name (Some r) console args = (map_sum id Some (invoke r name args), console)) \<and>
         loadShim member slot console reactShim =
           ((''default'', case slot of None \<Rightarrow> Undefined | Some r \<Rightarrow> Instance r) #
            map (\<lambda>name. (name, Forwarder name)) [name. ExportForward name \<leftarrow> reactShim] @
            [(''Fragment'', case slot of
                              None \<Rightarrow> Undefined
                            | Some r \<Rightarrow> (case member r ''Fragment'' of None \<Rightarrow> Undefined | Some v \<Rightarrow> Member v))],
            console)"
proof -
  from rewriteImports_reps [OF assms] obtain fss where
    len: "length fss = length (matchAll code)" and
    out: "out = weave code 0 (zip (matchAll code) (map2 (rewritten h baseDir cacheDir) (matchAll code) fss))"
    by blast
  let ?reps = "map2 (rewritten h baseDir cacheDir) (matchAll code) fss"
  have l: "length ?reps = length (matchAll code)" using len by simp
  have "\<forall>i<length ?reps. isReact (m_spec (matchAll code ! i)) \<longrightarrow>
          ?reps ! i = ''from '' @ [sq] @ ''data:text/javascript;base64,'' @ base64 h reactGlue @ [sq]"
  proof (intro allI impI)
    fix i assume i: "i < length ?reps" and re: "isReact (m_spec (matchAll code ! i))"
    from i l have "?reps ! i = rewritten h baseDir cacheDir (matchAll code ! i) (fss ! i)"
      using map2_nth [OF len] by simp
    with re show "?reps ! i = ''from '' @ [sq] @ ''data:text/javascript;base64,'' @ base64 h reactGlue @ [sq]"
      by (simp add: rewritten_react replacementOf_def dataUrl_def)
  qed
  with l out have a: "\<exists>reps. length reps = length (matchAll code) \<and>
            out = weave code 0 (zip (matchAll code) reps) \<and>
            (\<forall>i<length reps. isReact (m_spec (matchAll code ! i)) \<longrightarrow>
               reps ! i = ''from '' @ [sq] @ ''data:text/javascript;base64,'' @ base64 h reactGlue @ [sq])"
    by blast
  have b: "\<not> isReact (''data:text/javascript;base64,'' @ base64 h reactGlue)"
    by (simp add: isReact_def)
  have c: "[name. ExportForward name \<leftarrow> reactShim] =
           [''useState'', ''useMemo'', ''useCallback'', ''useEffect'', ''useContext'', ''useReducer'',
            ''useRef'', ''useId'', ''useLayoutEffect'', ''createContext'', ''createElement'']"
    by (simp add: reactShim_def)
  have e: "\<forall>name. ExportForward name \<in> set reactShim \<longrightarrow>
            callForwarder invoke name None console args = (Inr None, console @ [shimMessage]) \<and>
            callForwarder invoke name (Some r) console args = (map_sum id Some (invoke r name args), console)"
    by (simp add: callForwarder_def getReact_def)
  have f: "loadShim member slot console reactShim =
           ((''default'', case slot of None \<Rightarrow> Undefined | Some r \<Rightarrow> Instance r) #
            map (\<lambda>name. (name, Forwarder name)) [name. ExportForward name \<leftarrow> reactShim] @
            [(''Fragment'', case slot of
                              None \<Rightarrow> Undefined
                            | Some r \<Rightarrow> (case member r ''Fragment'' of None \<Rightarrow> Undefined | Some v \<Rightarrow> Member v))],
            console)"
    unfolding c by (simp add: loadShim_def reactShim_def)
  from a b c e f reactGlue_program show ?thesis by blast
qed

text \<open>
  C2, an instance: the import of \<^verbatim>\<open>"react"\<close> is replaced by the data URL of the shim, and a
  call of the export \<^verbatim>\<open>useState\<close> with the slot missing logs the error and returns
  \<^verbatim>\<open>undefined\<close>.
\<close>

theorem C2_react_shim_witness:
  "map_option snd
     (rewriteImports 1 exampleHost readyState (''import React from '' @ [dq] @ ''react'' @ [dq] @ '';'')
        ''/p/src'' ''/p/.float/.cache'' False)
   = Some (Inr (''import React from '' @ [sq] @ ''data:text/javascript;base64,'' @ bufferBase64 reactGlue @ [sq] @ '';'')) \<and>
   map m_spec (matchAll (''import React from '' @ [dq] @ ''react'' @ [dq] @ '';'')) = [''react''] \<and>
   (\<exists>reps. length reps = length (matchAll (''import React from '' @ [dq] @ ''react'' @ [dq] @ '';'')) \<and>
      ''import React from '' @ [sq] @ ''data:text/javascript;base64,'' @ bufferBase64 reactGlue @ [sq] @ '';''
        = weave (''import React from '' @ [dq] @ ''react'' @ [dq] @ '';'') 0
            (zip (matchAll (''import React from '' @ [dq] @ ''react'' @ [dq] @ '';'')) reps) \<and>
      reps ! 0 = ''from '' @ [sq] @ ''data:text/javascript;base64,'' @ bufferBase64 reactGlue @ [sq]) \<and>
   ExportForward ''useState'' \<in> set reactShim \<and>
   callForwarder (\<lambda>(r::nat) name (a::nat). (Inr (r + a) :: error + nat)) ''useState'' None [] 1
     = (Inr None, [''[Shim] __FLOAT_REACT__ is missing!''])"
proof -
  let ?code = "''import React from '' @ [dq] @ ''react'' @ [dq] @ '';''"
  let ?out = "''import React from '' @ [sq] @ ''data:text/javascript;base64,'' @ bufferBase64 reactGlue @ [sq] @ '';''"
  have ev: "map_option snd (rewriteImports 1 exampleHost readyState ?code ''/p/src'' ''/p/.float/.cache'' False)
            = Some (Inr ?out)"
    by code_simp
  then obtain st' where run: "rewriteImports 1 exampleHost readyState ?code ''/p/src'' ''/p/.float/.cache'' False
            = Some (st', Inr ?out)"
    by auto
  have ms: "map m_spec (matchAll ?code) = [''react'']" by code_simp
  then have one: "length (matchAll ?code) = 1" "isReact (m_spec (matchAll ?code ! 0))"
    by (auto simp: isReact_def dest: arg_cong [where f = length] map_eq_imp_length_eq
        simp: list_eq_iff_nth_eq)
  have b64: "base64 exampleHost = bufferBase64" by (simp add: exampleHost_def posixHost_def)
  have us: "ExportForward ''useState'' \<in> set reactShim" by (simp add: reactShim_def)
  from C2_react_shim [OF run, of "\<lambda>(r::nat) name (a::nat). (Inr (r + a) :: error + nat)" "[]" 1 0, unfolded b64]
  obtain reps where reps: "length reps = length (matchAll ?code)"
    "?out = weave ?code 0 (zip (matchAll ?code) reps)"
    "\<forall>i<length reps. isReact (m_spec (matchAll ?code ! i)) \<longrightarrow>
       reps ! i = ''from '' @ [sq] @ ''data:text/javascript;base64,'' @ bufferBase64 reactGlue @ [sq]"
    and shim: "\<forall>name. ExportForward name \<in> set reactShim \<longrightarrow>
                callForwarder (\<lambda>(r::nat) name (a::nat). (Inr (r + a) :: error + nat)) name None [] 1
                = (Inr None, [] @ [shimMessage])"
    by blast
  from reps(1,3) one have "reps ! 0 = ''from '' @ [sq] @ ''data:text/javascript;base64,'' @ bufferBase64 reactGlue @ [sq]"
    by simp
  moreover from shim us have
    "callForwarder (\<lambda>(r::nat) name (a::nat). (Inr (r + a) :: error + nat)) ''useState'' None [] 1
       = (Inr None, [''[Shim] __FLOAT_REACT__ is missing!''])"
    by (simp add: shimMessage_def)
  ultimately show ?thesis using ev ms reps(1,2) us by auto
qed

section \<open>C6: the native-platform specifier\<close>






section \<open>C8: what a run of the rewriter changes in the code\<close>

text \<open>
  C8 (as stated): only the specifier token inside each matched from-clause changes.  In
  the state that has the cache directory, the clause \<^verbatim>\<open>from  './util.js'\<close>, written with two
  spaces, comes back with one space: the output is not the input with another token
  between the same \<^verbatim>\<open>from\<close>, white space and semicolon.
\<close>

theorem C8_counterexample:
  "existsSync (fs readyState) ''/p/.float/.cache'' \<and>
   map_option snd
     (rewriteImports 2 exampleHost readyState ''import { u } from  './util.js';''
        ''/p/src'' ''/p/.float/.cache'' False)
   = Some (Inr ''import { u } from 'file:///p/.float/.cache/dep_f1d154a62a87aff1.mjs';'') \<and>
   \<not> (\<exists>token. ''import { u } from 'file:///p/.float/.cache/dep_f1d154a62a87aff1.mjs';''
                 = ''import { u } from  '' @ token @ '';'')"
proof -
  have "map_option snd
     (rewriteImports 2 exampleHost readyState ''import { u } from  './util.js';''
        ''/p/src'' ''/p/.float/.cache'' False)
   = Some (Inr ''import { u } from 'file:///p/.float/.cache/dep_f1d154a62a87aff1.mjs';'')"
    by code_simp
  moreover have "\<not> (\<exists>token. ''import { u } from 'file:///p/.float/.cache/dep_f1d154a62a87aff1.mjs';''
                 = ''import { u } from  '' @ token @ '';'')"
    by simp
  moreover have "existsSync (fs readyState) ''/p/.float/.cache''" by code_simp
  ultimately show ?thesis by blast
qed

text \<open>
  C8 (amended): the output of \<^verbatim>\<open>rewriteImports\<close> differs from the input only inside the
  matched from-clauses.  The matches lie in the code one after the other without overlap;
  the output is the input with each match either left as it is or replaced as a whole by
  \<^verbatim>\<open>from '<final path>'\<close> (one space, single quotes), and every character outside the matches
  is kept, also when replacements of different lengths shift the later matches.
\<close>

theorem C8_frame:
  assumes "rewriteImports n h st code baseDir cacheDir d = Some (st', Inr out)"
  shows "wf_matches code 0 (matchAll code) \<and>
         weave code 0 (zip (matchAll code) (map m_text (matchAll code))) = code \<and>
         (\<exists>reps. length reps = length (matchAll code) \<and>
            out = weave code 0 (zip (matchAll code) reps) \<and>
            (\<forall>i<length reps. reps ! i = m_text (matchAll code ! i) \<or>
                              (\<exists>final. reps ! i = ''from '' @ [sq] @ final @ [sq])))"
proof -
  from rewriteImports_reps [OF assms] obtain fss where
    len: "length fss = length (matchAll code)" and
    out: "out = weave code 0 (zip (matchAll code) (map2 (rewritten h baseDir cacheDir) (matchAll code) fss))"
    by blast
  let ?reps = "map2 (rewritten h baseDir cacheDir) (matchAll code) fss"
  have l: "length ?reps = length (matchAll code)" using len by simp
  have "\<forall>i<length ?reps. ?reps ! i = m_text (matchAll code ! i) \<or>
                              (\<exists>final. ?reps ! i = ''from '' @ [sq] @ final @ [sq])"
  proof (intro allI impI)
    fix i assume i: "i < length ?reps"
    from i l have "?reps ! i = rewritten h baseDir cacheDir (matchAll code ! i) (fss ! i)"
      using map2_nth [OF len] by simp
    then show "?reps ! i = m_text (matchAll code ! i) \<or>
                              (\<exists>final. ?reps ! i = ''from '' @ [sq] @ final @ [sq])"
      by (auto simp: rewritten_def replacementOf_def split: option.splits)
  qed
  with l out have "\<exists>reps. length reps = length (matchAll code) \<and>
            out = weave code 0 (zip (matchAll code) reps) \<and>
            (\<forall>i<length reps. reps ! i = m_text (matchAll code ! i) \<or>
                              (\<exists>final. reps ! i = ''from '' @ [sq] @ final @ [sq]))"
    by blast
  moreover have "weave code 0 (zip (matchAll code) (map m_text (matchAll code))) = code"
    using weave_same [OF matchAll_wf, of code] by simp
  ultimately show ?thesis using matchAll_wf [of code] by blast
qed

text \<open>
  C8, an instance in the state that has the cache directory: the first clause is
  replaced, the second is left as it is, the rest of the code is kept.
\<close>

theorem C8_frame_witness:
  "existsSync (fs readyState) ''/p/.float/.cache'' \<and>
   map_option snd
     (rewriteImports 2 exampleHost readyState
        (''import { u } from '' @ [dq] @ ''./util.js'' @ [dq] @ ''; import x from 'nowhere'; export default u;'')
        ''/p/src'' ''/p/.float/.cache'' False)
   = Some (Inr ''import { u } from 'file:///p/.float/.cache/dep_f1d154a62a87aff1.mjs'; import x from 'nowhere'; export default u;'') \<and>
   (\<exists>reps. length reps = 2 \<and>
      ''import { u } from 'file:///p/.float/.cache/dep_f1d154a62a87aff1.mjs'; import x from 'nowhere'; export default u;''
       = weave (''import { u } from '' @ [dq] @ ''./util.js'' @ [dq] @ ''; import x from 'nowhere'; export default u;'') 0
           (zip (matchAll (''import { u } from '' @ [dq] @ ''./util.js'' @ [dq] @ ''; import x from 'nowhere'; export default u;'')) reps))"
proof -
  let ?code = "''import { u } from '' @ [dq] @ ''./util.js'' @ [dq] @ ''; import x from 'nowhere'; export default u;''"
  let ?out = "''import { u } from 'file:///p/.float/.cache/dep_f1d154a62a87aff1.mjs'; import x from 'nowhere'; export default u;''"
  have ev: "map_option snd (rewriteImports 2 exampleHost readyState ?code ''/p/src'' ''/p/.float/.cache'' False)
            = Some (Inr ?out)"
    by code_simp
  then obtain st' where run: "rewriteImports 2 exampleHost readyState ?code ''/p/src'' ''/p/.float/.cache'' False
            = Some (st', Inr ?out)"
    by auto
  have two: "length (matchAll ?code) = 2" by code_simp
  have dir: "existsSync (fs readyState) ''/p/.float/.cache''" by code_simp
  from C8_frame [OF run] two ev dir show ?thesis by auto
qed

section \<open>C9: two runs of the pipeline\<close>

text \<open>
  The paths whose existence the resolution of a specifier looks at: the entry of the
  framework (line 201) and the candidates of the probing loop (lines 218 to 225).
\<close>

definition probedPaths :: "host \<Rightarrow> path \<Rightarrow> string \<Rightarrow> path list" where
  "probedPaths h baseDir importPath =
     path_resolve h [module_dir h, ''..'', ''index.js''] # probeOrder h (resolveBase h baseDir importPath)"

text \<open>The same for all the from-clauses of a piece of code.\<close>

definition allProbed :: "host \<Rightarrow> path \<Rightarrow> string \<Rightarrow> path list" where
  "allProbed h baseDir code = concat (map (\<lambda>m. probedPaths h baseDir (m_spec m)) (matchAll code))"

lemma find_agree:
  "(\<forall>x\<in>set xs. P x = Q x) \<Longrightarrow> find P xs = find Q xs"
  by (induction xs) auto

lemma resolveSpecifier_agree:
  assumes "\<forall>p\<in>set (probedPaths h baseDir importPath). existsSync f1 p = existsSync f2 p"
  shows "resolveSpecifier h f1 baseDir importPath = resolveSpecifier h f2 baseDir importPath"
proof -
  from assms have idx: "existsSync f1 (path_resolve h [module_dir h, ''..'', ''index.js''])
                      = existsSync f2 (path_resolve h [module_dir h, ''..'', ''index.js''])"
    by (simp add: probedPaths_def)
  then have known: "resolveKnown h f1 baseDir importPath = resolveKnown h f2 baseDir importPath"
    by (simp add: resolveKnown_def)
  from assms have "\<forall>p\<in>set (probeOrder h (resolveBase h baseDir importPath)). existsSync f1 p = existsSync f2 p"
    by (simp add: probedPaths_def)
  then have "find (existsSync f1) (probeOrder h (resolveBase h baseDir importPath))
           = find (existsSync f2) (probeOrder h (resolveBase h baseDir importPath))"
    by (rule find_agree)
  then have "probe h f1 (stripJsExt (resolveBase h baseDir importPath)) (resolveBase h baseDir importPath) extensions
           = probe h f2 (stripJsExt (resolveBase h baseDir importPath)) (resolveBase h baseDir importPath) extensions"
    by (simp add: probe_find probeOrder_def)
  then have "\<And>r. resolveRelative h f1 baseDir importPath r = resolveRelative h f2 baseDir importPath r"
    by (simp add: resolveRelative_def)
  with known show ?thesis by (simp add: resolveSpecifier_def)
qed

lemma rewritten_agree:
  assumes "\<forall>p\<in>set (probedPaths h baseDir (m_spec m)). existsSync f1 p = existsSync f2 p"
  shows "rewritten h baseDir cacheDir m f1 = rewritten h baseDir cacheDir m f2"
  using resolveSpecifier_agree [OF assms] by (simp add: rewritten_def finalPath_def)

lemma between_exists:
  assumes "dom a \<subseteq> dom f" and "dom f \<subseteq> dom b" and "existsSync a p = existsSync b p"
  shows "existsSync f p = existsSync a p"
  using assms by (auto simp: existsSync_def)

lemma map2_const:
  "length ys = length xs \<Longrightarrow> (\<forall>x\<in>set xs. \<forall>y\<in>set ys. g x y = k x) \<Longrightarrow> map2 g xs ys = map k xs"
proof (induction xs arbitrary: ys)
  case Nil
  then show ?case by simp
next
  case (Cons x xs)
  then obtain y ys' where ys: "ys = y # ys'" by (cases ys) auto
  with Cons show ?case by auto
qed

lemma rewriteImports_determined:
  assumes run: "rewriteImports n h st code baseDir cacheDir d = Some (st', Inr out)"
      and before: "map (existsSync (fs st)) (allProbed h baseDir code) = map (existsSync fsys) (allProbed h baseDir code)"
      and after: "map (existsSync (fs st')) (allProbed h baseDir code) = map (existsSync fsys) (allProbed h baseDir code)"
  shows "out = weave code 0 (zip (matchAll code) (map (\<lambda>m. rewritten h baseDir cacheDir m fsys) (matchAll code)))"
proof -
  from rewriteImports_weave [OF run] obtain fss where
    len: "length fss = length (matchAll code)" and
    btw: "\<forall>f\<in>set fss. dom (fs st) \<subseteq> dom f \<and> dom f \<subseteq> dom (fs st')" and
    out: "out = weave code 0 (zip (matchAll code) (map2 (rewritten h baseDir cacheDir) (matchAll code) fss))"
    by blast
  have st: "\<forall>p\<in>set (allProbed h baseDir code). existsSync (fs st) p = existsSync fsys p"
    using before by (simp add: map_eq_conv)
  have st': "\<forall>p\<in>set (allProbed h baseDir code). existsSync (fs st') p = existsSync fsys p"
    using after by (simp add: map_eq_conv)
  have "\<forall>m\<in>set (matchAll code). \<forall>f\<in>set fss.
          rewritten h baseDir cacheDir m f = rewritten h baseDir cacheDir m fsys"
  proof (intro ballI)
    fix m f assume m: "m \<in> set (matchAll code)" and f: "f \<in> set fss"
    have "\<forall>p\<in>set (probedPaths h baseDir (m_spec m)). existsSync f p = existsSync fsys p"
    proof
      fix p assume "p \<in> set (probedPaths h baseDir (m_spec m))"
      with m have p: "p \<in> set (allProbed h baseDir code)" by (auto simp: allProbed_def)
      with st st' have e: "existsSync (fs st) p = existsSync (fs st') p" by simp
      from btw f have d: "dom (fs st) \<subseteq> dom f" "dom f \<subseteq> dom (fs st')" by simp_all
      have "existsSync f p = existsSync (fs st) p"
        by (rule between_exists [OF d e])
      with st p show "existsSync f p = existsSync fsys p" by simp
    qed
    then show "rewritten h baseDir cacheDir m f = rewritten h baseDir cacheDir m fsys"
      by (rule rewritten_agree)
  qed
  then have "map2 (rewritten h baseDir cacheDir) (matchAll code) fss
           = map (\<lambda>m. rewritten h baseDir cacheDir m fsys) (matchAll code)"
    by (rule map2_const [OF len])
  with out show ?thesis by simp
qed

lemma prepareCode_success:
  assumes "prepareCode n h st absolutePath opts = Some (st', Inr (tempFile, code))"
  shows "\<exists>source result sta out.
           readFileSync (fs st) absolutePath = Inr source \<and>
           esbuild_transform h (getLoader (path_extname h absolutePath)) absolutePath source = Inr result \<and>
           evolves st sta \<and>
           rewriteImports n h sta (prependReact result) (path_dirname h absolutePath)
             (path_join h [h_cwd h, ''.float'', ''.cache'']) (vibeDebug opts) = Some (st', Inr out) \<and>
           code = stripCssImports out"
proof -
  from assms obtain source where a: "readFileSync (fs st) absolutePath = Inr source"
    by (cases "readFileSync (fs st) absolutePath") (auto simp: prepareCode_def)
  let ?st1 = "st\<lparr>events := events st @ [EsbuildTransform absolutePath]\<rparr>"
  from assms a obtain result where
    b: "esbuild_transform h (getLoader (path_extname h absolutePath)) absolutePath source = Inr result"
    by (cases "esbuild_transform h (getLoader (path_extname h absolutePath)) absolutePath source")
       (auto simp: prepareCode_def Let_def)
  obtain sta z where c: "mkdirSync h ?st1 (path_join h [h_cwd h, ''.float'', ''.cache'']) = (sta, z)"
    by (cases "mkdirSync h ?st1 (path_join h [h_cwd h, ''.float'', ''.cache''])")
  from assms a b c have z: "z = Inr ()" by (cases z) (auto simp: prepareCode_def Let_def)
  have ev: "evolves st sta"
    using evolves_trans [OF evolves_event mkdirSync_evolves [OF c]] .
  from assms a b c z obtain out where
    "rewriteImports n h sta (prependReact result) (path_dirname h absolutePath)
       (path_join h [h_cwd h, ''.float'', ''.cache'']) (vibeDebug opts) = Some (st', Inr out)"
    "code = stripCssImports out"
    by (auto simp: prepareCode_def Let_def split: option.splits sum.splits)
  with a b ev show ?thesis by blast
qed

lemma evolves_before:
  assumes "evolves st sta" and "evolves sta st'"
      and "map (existsSync (fs st)) ps = map (existsSync fsys) ps"
      and "map (existsSync (fs st')) ps = map (existsSync fsys) ps"
  shows "map (existsSync (fs sta)) ps = map (existsSync fsys) ps"
proof -
  have "\<forall>p\<in>set ps. existsSync (fs sta) p = existsSync fsys p"
  proof
    fix p assume p: "p \<in> set ps"
    with assms(3,4) have "existsSync (fs st) p = existsSync fsys p" "existsSync (fs st') p = existsSync fsys p"
      by (simp_all add: map_eq_conv)
    moreover have "dom (fs st) \<subseteq> dom (fs sta)" "dom (fs sta) \<subseteq> dom (fs st')"
      using assms(1,2) by (simp_all add: evolves_def)
    ultimately show "existsSync (fs sta) p = existsSync fsys p"
      using between_exists [of "fs st" "fs sta" "fs st'" p] by simp
  qed
  then show ?thesis by (simp add: map_eq_conv)
qed

text \<open>
  An entry file that imports, before its dependency \<^verbatim>\<open>./util.js\<close>, the very file in which
  the transformed dependency will be cached.
\<close>

definition loopSource :: string where
  "loopSource =
     ''// import React: not needed here'' @ [CHR 0x0A] @
     ''import c from '../.float/.cache/dep_f1d154a62a87aff1.mjs';'' @ [CHR 0x0A] @
     ''import { u } from './util.js';'' @ [CHR 0x0A]"

definition loopFs :: filesystem where
  "loopFs = exampleFs(''/p/src/entry.tsx'' \<mapsto> File loopSource 10)"

text \<open>
  C9 (as stated): two runs on the same unchanged source file, with the modification times
  of the dependencies unchanged between the runs, give the same code.  The second run
  below starts in the state the first run left, so nothing at all changes between the
  runs; the first run leaves the first import as it is (the cache file does not exist
  yet) and writes the cache file, the second run finds the cache file and rewrites the
  first import to its URL.
\<close>

theorem C9_counterexample:
  "Option.bind (prepareCode 2 exampleHost (freshState loopFs 42) ''/p/src/entry.tsx''
                  \<lparr>useCache = True, vibeDebug = False\<rparr>) (\<lambda>(st1, r1).
   Option.bind (prepareCode 2 exampleHost st1 ''/p/src/entry.tsx''
                  \<lparr>useCache = True, vibeDebug = False\<rparr>) (\<lambda>(st2, r2).
     Some (map_sum id snd r1, map_sum id snd r2,
           readFileSync (fs st1) ''/p/src/entry.tsx'', statMtimeMs (fs st1) ''/p/src/util.ts'',
           statMtimeMs (fs st2) ''/p/src/util.ts'')))
   = Some (Inr (''// import React: not needed here'' @ [CHR 0x0A] @
                ''import c from '../.float/.cache/dep_f1d154a62a87aff1.mjs';'' @ [CHR 0x0A] @
                ''import { u } from 'file:///p/.float/.cache/dep_f1d154a62a87aff1.mjs';'' @ [CHR 0x0A]),
           Inr (''// import React: not needed here'' @ [CHR 0x0A] @
                ''import c from 'file:///p/.float/.cache/dep_f1d154a62a87aff1.mjs';'' @ [CHR 0x0A] @
                ''import { u } from 'file:///p/.float/.cache/dep_f1d154a62a87aff1.mjs';'' @ [CHR 0x0A]),
           Inr loopSource, Inr 5, Inr 5)"
  by code_simp

text \<open>
  C9 (amended): two runs of the pipeline (read, transform, prepend the import of the UI
  runtime, rewrite the imports, strip the style imports) on an entry file with the same
  source text give the same code, whenever both runs return code and every path whose
  existence the resolution of the entry's from-clauses looks at exists after the first
  run, before the second run and after the second run exactly when it existed before the
  first.  The transformer and the module resolution of the host are taken to be functions
  of their arguments.  Modification times play no part in the code that is returned:
  they only decide whether a cache file is written again.
\<close>

theorem C9_two_runs:
  assumes source: "readFileSync (fs st) absolutePath = Inr source"
      and result: "esbuild_transform h (getLoader (path_extname h absolutePath)) absolutePath source = Inr result"
      and run1: "prepareCode n h st absolutePath opts = Some (st1, Inr (tempFile1, code1))"
      and unchanged: "readFileSync (fs st2) absolutePath = Inr source"
      and run2: "prepareCode n' h st2 absolutePath opts = Some (st3, Inr (tempFile2, code2))"
      and stable1: "map (existsSync (fs st1)) (allProbed h (path_dirname h absolutePath) (prependReact result))
                  = map (existsSync (fs st)) (allProbed h (path_dirname h absolutePath) (prependReact result))"
      and stable2: "map (existsSync (fs st2)) (allProbed h (path_dirname h absolutePath) (prependReact result))
                  = map (existsSync (fs st)) (allProbed h (path_dirname h absolutePath) (prependReact result))"
      and stable3: "map (existsSync (fs st3)) (allProbed h (path_dirname h absolutePath) (prependReact result))
                  = map (existsSync (fs st)) (allProbed h (path_dirname h absolutePath) (prependReact result))"
  shows "code1 = code2"
proof -
  let ?dir = "path_dirname h absolutePath"
  let ?cache = "path_join h [h_cwd h, ''.float'', ''.cache'']"
  let ?code = "prependReact result"
  let ?P = "allProbed h ?dir ?code"
  from prepareCode_success [OF run1] source result obtain sta out1 where
    a: "evolves st sta"
       "rewriteImports n h sta ?code ?dir ?cache (vibeDebug opts) = Some (st1, Inr out1)"
       "code1 = stripCssImports out1"
    by auto
  from prepareCode_success [OF run2] unchanged result obtain stb out2 where
    b: "evolves st2 stb"
       "rewriteImports n' h stb ?code ?dir ?cache (vibeDebug opts) = Some (st3, Inr out2)"
       "code2 = stripCssImports out2"
    by auto
  have ea: "map (existsSync (fs sta)) ?P = map (existsSync (fs st)) ?P"
    using evolves_before [OF a(1) rewriteImports_evolves [OF a(2)] refl stable1] .
  have eb: "map (existsSync (fs stb)) ?P = map (existsSync (fs st)) ?P"
    using evolves_before [OF b(1) rewriteImports_evolves [OF b(2)] stable2 stable3] .
  have "out1 = weave ?code 0 (zip (matchAll ?code) (map (\<lambda>m. rewritten h ?dir ?cache m (fs st)) (matchAll ?code)))"
    using rewriteImports_determined [OF a(2) ea stable1] .
  moreover have "out2 = weave ?code 0 (zip (matchAll ?code) (map (\<lambda>m. rewritten h ?dir ?cache m (fs st)) (matchAll ?code)))"
    using rewriteImports_determined [OF b(2) eb stable3] .
  ultimately show ?thesis using a(3) b(3) by simp
qed

text \<open>
  C9, an instance: \<^verbatim>\<open>/p/src/main.tsx\<close> is run through the pipeline at time 42 and, in the
  state the first run left, again at time 50; the second run calls the transformer once
  (the dependency is served from its cache file), the temporary files differ and the code
  is the same.
\<close>

theorem C9_two_runs_witness:
  "\<exists>st1 tempFile1 code1 st3 tempFile2 code2.
     prepareCode 2 exampleHost (freshState exampleFs 42) ''/p/src/main.tsx''
       \<lparr>useCache = True, vibeDebug = False\<rparr> = Some (st1, Inr (tempFile1, code1)) \<and>
     prepareCode 2 exampleHost (st1\<lparr>now := 50\<rparr>) ''/p/src/main.tsx''
       \<lparr>useCache = True, vibeDebug = False\<rparr> = Some (st3, Inr (tempFile2, code2)) \<and>
     tempFile1 = ''/p/.float/.cache/main_42.mjs'' \<and> tempFile2 = ''/p/.float/.cache/main_50.mjs'' \<and>
     length (events st1) = 2 \<and> length (events st3) = 3 \<and>
     code1 = code2"
proof -
  let ?st = "freshState exampleFs 42"
  let ?opts = "\<lparr>useCache = True, vibeDebug = False\<rparr>"
  let ?abs = "''/p/src/main.tsx''"
  let ?P = "allProbed exampleHost (path_dirname exampleHost ?abs) (prependReact mainSource)"
  have ev: "Option.bind (prepareCode 2 exampleHost ?st ?abs ?opts) (\<lambda>(s1, r1).
            Option.bind (prepareCode 2 exampleHost (s1\<lparr>now := 50\<rparr>) ?abs ?opts) (\<lambda>(s3, r3).
              Some (map_sum id fst r1, map_sum id fst r3, readFileSync (fs s1) ?abs,
                    map (existsSync (fs s1)) ?P, map (existsSync (fs s3)) ?P,
                    length (events s1), length (events s3))))
        = Some (Inr ''/p/.float/.cache/main_42.mjs'', Inr ''/p/.float/.cache/main_50.mjs'', Inr mainSource,
                map (existsSync (fs ?st)) ?P, map (existsSync (fs ?st)) ?P, 2, 3)"
    by code_simp
  then obtain st1 r1 st3 r3 where
    p1: "prepareCode 2 exampleHost ?st ?abs ?opts = Some (st1, r1)" and
    p2: "prepareCode 2 exampleHost (st1\<lparr>now := 50\<rparr>) ?abs ?opts = Some (st3, r3)" and
    f1: "map_sum id fst r1 = Inr ''/p/.float/.cache/main_42.mjs''" and
    f2: "map_sum id fst r3 = Inr ''/p/.float/.cache/main_50.mjs''" and
    src: "readFileSync (fs st1) ?abs = Inr mainSource" and
    s1: "map (existsSync (fs st1)) ?P = map (existsSync (fs ?st)) ?P" and
    s3: "map (existsSync (fs st3)) ?P = map (existsSync (fs ?st)) ?P" and
    e1: "length (events st1) = 2" and e3: "length (events st3) = 3"
    by (auto simp: bind_eq_Some_conv)
  from f1 obtain code1 where r1: "r1 = Inr (''/p/.float/.cache/main_42.mjs'', code1)" by (cases r1) auto
  from f2 obtain code2 where r3: "r3 = Inr (''/p/.float/.cache/main_50.mjs'', code2)" by (cases r3) auto
  have source: "readFileSync (fs ?st) ?abs = Inr mainSource" by code_simp
  have result: "esbuild_transform exampleHost (getLoader (path_extname exampleHost ?abs)) ?abs mainSource = Inr mainSource"
    by (simp add: exampleHost_def posixHost_def)
  have unchanged: "readFileSync (fs (st1\<lparr>now := 50\<rparr>)) ?abs = Inr mainSource" using src by simp
  have s2: "map (existsSync (fs (st1\<lparr>now := 50\<rparr>))) ?P = map (existsSync (fs ?st)) ?P" using s1 by simp
  have "code1 = code2"
    by (rule C9_two_runs [OF source result p1 [unfolded r1] unchanged p2 [unfolded r3] s1 s2 s3])
  with p1 p2 r1 r3 e1 e3 show ?thesis by blast
qed

end
